theory Spec2Isabelle
  imports Complex_Main "HOL-Library.AList"
begin

section \<open>JavaScript values, errors and strings\<close>

text \<open>
  The server actions work on the result of \<^verbatim>\<open>JSON.parse\<close> and on property reads
  of it. A value is one of the JSON shapes, or \<^verbatim>\<open>undefined\<close>, which a read of an
  absent property gives. An object is the list of its own properties in order.
  Strings are lists of code units below 256.
\<close>

datatype jsval =
    JUndefined
  | JNull
  | JBool bool
  | JNum real
  | JStr string
  | JArr "jsval list"
  | JObj "(string \<times> jsval) list"

text \<open>A thrown value: the three error classes the actions distinguish, with the message.\<close>

datatype js_error =
    Error string
  | TypeError string
  | SyntaxError string

fun message :: "js_error \<Rightarrow> string" where
  "message (Error m) = m"
| "message (TypeError m) = m"
| "message (SyntaxError m) = m"

definition isSyntaxError :: "js_error \<Rightarrow> bool" where
  "isSyntaxError e = (case e of SyntaxError _ \<Rightarrow> True | _ \<Rightarrow> False)"

text \<open>Truthiness, as \<^verbatim>\<open>!v\<close> and \<^verbatim>\<open>v || w\<close> read it.\<close>

fun truthy :: "jsval \<Rightarrow> bool" where
  "truthy JUndefined = False"
| "truthy JNull = False"
| "truthy (JBool b) = b"
| "truthy (JNum n) = (n \<noteq> 0)"
| "truthy (JStr s) = (s \<noteq> [])"
| "truthy (JArr _) = True"
| "truthy (JObj _) = True"

definition isString :: "jsval \<Rightarrow> bool" where
  "isString v = (case v of JStr _ \<Rightarrow> True | _ \<Rightarrow> False)"

definition isArray :: "jsval \<Rightarrow> bool" where
  "isArray v = (case v of JArr _ \<Rightarrow> True | _ \<Rightarrow> False)"

definition elems :: "jsval \<Rightarrow> jsval list" where
  "elems v = (case v of JArr xs \<Rightarrow> xs | _ \<Rightarrow> [])"

definition quote :: string where
  "quote = [CHR 0x27]"

text \<open>
  \<^verbatim>\<open>v.k\<close> for the property names the actions read (none of them a built-in property
  of arrays, strings, numbers or booleans): reading from \<^verbatim>\<open>null\<close> or
  \<^verbatim>\<open>undefined\<close> throws a TypeError, an object gives its property or
  \<^verbatim>\<open>undefined\<close>, every other value gives \<^verbatim>\<open>undefined\<close>.
\<close>

definition getProp :: "jsval \<Rightarrow> string \<Rightarrow> js_error + jsval" where
  "getProp v k =
     (case v of
        JNull \<Rightarrow> Inl (TypeError (''Cannot read properties of null (reading '' @ quote @ k @ quote @ '')''))
      | JUndefined \<Rightarrow> Inl (TypeError (''Cannot read properties of undefined (reading '' @ quote @ k @ quote @ '')''))
      | JObj kvs \<Rightarrow> (case map_of kvs k of Some x \<Rightarrow> Inr x | None \<Rightarrow> Inr JUndefined)
      | _ \<Rightarrow> Inr JUndefined)"

text \<open>\<^verbatim>\<open>k in v\<close>: a TypeError unless \<open>v\<close> is an object or an array.\<close>

definition hasField :: "string \<Rightarrow> jsval \<Rightarrow> js_error + bool" where
  "hasField k v =
     (case v of
        JObj kvs \<Rightarrow> Inr (k \<in> fst ` set kvs)
      | JArr _ \<Rightarrow> Inr False
      | _ \<Rightarrow> Inl (TypeError (''Cannot use '' @ quote @ ''in'' @ quote @ '' operator to search for '' @ quote @ k @ quote)))"

text \<open>
  \<^verbatim>\<open>xs.includes(x)\<close> compares with SameValueZero: primitives by value, objects and
  arrays by identity, and two values of one parse are never the same object.
\<close>

definition sameValueZero :: "jsval \<Rightarrow> jsval \<Rightarrow> bool" where
  "sameValueZero a b = (case a of JArr _ \<Rightarrow> False | JObj _ \<Rightarrow> False | _ \<Rightarrow> a = b)"

definition arrayIncludes :: "jsval list \<Rightarrow> jsval \<Rightarrow> bool" where
  "arrayIncludes xs x = list_ex (sameValueZero x) xs"

text \<open>Template literals print a number in decimal.\<close>

definition digit :: "nat \<Rightarrow> char" where
  "digit d = ''0123456789'' ! d"

function show_nat :: "nat \<Rightarrow> string" where
  "show_nat n = (if n < 10 then [digit n] else show_nat (n div 10) @ [digit (n mod 10)])"
  by pat_completeness auto
termination
  by (relation "measure id") auto

subsection \<open>Whitespace\<close>

definition newline :: char where
  "newline = CHR 0x0A"

text \<open>The white space and line terminators of \<^verbatim>\<open>String.prototype.trim\<close> below 256.\<close>

definition isSpace :: "char \<Rightarrow> bool" where
  "isSpace c = (c \<in> set [CHR 0x09, CHR 0x0A, CHR 0x0B, CHR 0x0C, CHR 0x0D, CHR 0x20, CHR 0xA0])"

definition trim :: "string \<Rightarrow> string" where
  "trim s = rev (dropWhile isSpace (rev (dropWhile isSpace s)))"

section \<open>Response sanitizer\<close>

text \<open>
  \<^verbatim>\<open>text.replace(/```(?:json)?\n?/g, "").replace(/```\n?/g, "").trim()\<close>
  A global replace scans from the left; where the pattern matches it drops the match and
  goes on after it, elsewhere it keeps the character. A pattern is given by the length
  of its match at the head of a string.
\<close>

definition fence :: string where
  "fence = [CHR 0x60, CHR 0x60, CHR 0x60]"

definition optNewline :: "string \<Rightarrow> nat" where
  "optNewline s = (case s of [] \<Rightarrow> 0 | c # _ \<Rightarrow> if c = newline then 1 else 0)"

text \<open>\<^verbatim>\<open>/```(?:json)?\n?/\<close>\<close>

definition fenceJsonNl :: "string \<Rightarrow> nat option" where
  "fenceJsonNl s =
     (if take 3 s = fence then
        (let r = drop 3 s;
             a = (if take 4 r = ''json'' then 4 else 0)
         in Some (3 + a + optNewline (drop a r)))
      else None)"

text \<open>\<^verbatim>\<open>/```\n?/\<close>\<close>

definition fenceNl :: "string \<Rightarrow> nat option" where
  "fenceNl s = (if take 3 s = fence then Some (3 + optNewline (drop 3 s)) else None)"

text \<open>\<^verbatim>\<open>/```/\<close>\<close>

definition fenceOnly :: "string \<Rightarrow> nat option" where
  "fenceOnly s = (if take 3 s = fence then Some 3 else None)"

function replaceAll :: "(string \<Rightarrow> nat option) \<Rightarrow> string \<Rightarrow> string" where
  "replaceAll m [] = []"
| "replaceAll m (c # cs) =
     (case m (c # cs) of
        None \<Rightarrow> c # replaceAll m cs
      | Some n \<Rightarrow> if n = 0 then c # replaceAll m cs else replaceAll m (drop n (c # cs)))"
  by pat_completeness auto
termination
  by (relation "measure (\<lambda>(m, s). length s)") auto

text \<open>The cleaning of generateAIInsights and generateQuiz.\<close>

definition cleanText :: "string \<Rightarrow> string" where
  "cleanText s = trim (replaceAll fenceNl (replaceAll fenceJsonNl s))"

text \<open>The cleaning of generateWithRetry and analyzeResume, whose second pattern has no newline.\<close>

definition cleanTextJob :: "string \<Rightarrow> string" where
  "cleanTextJob s = trim (replaceAll fenceOnly (replaceAll fenceJsonNl s))"

text \<open>A fenced block: the text on its own lines between a tagged opening and a closing fence.\<close>

definition fenced :: "string \<Rightarrow> string \<Rightarrow> string \<Rightarrow> string" where
  "fenced before t after = before @ fence @ ''json'' @ [newline] @ t @ [newline] @ fence @ after"

section \<open>Schema validators\<close>

subsection \<open>validateQuizResponse (interview.js)\<close>

definition questionError :: "nat \<Rightarrow> string \<Rightarrow> js_error" where
  "questionError index clause = Error (''Question '' @ show_nat (index + 1) @ '': '' @ clause)"

text \<open>The body of the loop over \<^verbatim>\<open>quiz.questions.entries()\<close>: the first failing check throws.\<close>

definition checkQuestion :: "nat \<Rightarrow> jsval \<Rightarrow> js_error + unit" where
  "checkQuestion index q =
     (case getProp q ''question'' of
        Inl e \<Rightarrow> Inl e
      | Inr question \<Rightarrow>
          if \<not> truthy question \<or> \<not> isString question
          then Inl (questionError index ''missing or invalid question text'')
          else
            (case getProp q ''options'' of
               Inl e \<Rightarrow> Inl e
             | Inr options \<Rightarrow>
                 if \<not> isArray options \<or> length (elems options) \<noteq> 4
                 then Inl (questionError index ''must have exactly 4 options'')
                 else
                   (case getProp q ''correctAnswer'' of
                      Inl e \<Rightarrow> Inl e
                    | Inr correctAnswer \<Rightarrow>
                        if \<not> truthy correctAnswer \<or> \<not> arrayIncludes (elems options) correctAnswer
                        then Inl (questionError index ''correctAnswer must be one of the options'')
                        else
                          (case getProp q ''explanation'' of
                             Inl e \<Rightarrow> Inl e
                           | Inr explanation \<Rightarrow>
                               if \<not> truthy explanation \<or> \<not> isString explanation
                               then Inl (questionError index ''missing or invalid explanation'')
                               else Inr ()))))"

fun checkQuestions :: "nat \<Rightarrow> jsval list \<Rightarrow> js_error + unit" where
  "checkQuestions index [] = Inr ()"
| "checkQuestions index (q # qs) =
     (case checkQuestion index q of
        Inl e \<Rightarrow> Inl e
      | Inr _ \<Rightarrow> checkQuestions (index + 1) qs)"

definition validateQuizResponse :: "jsval \<Rightarrow> js_error + bool" where
  "validateQuizResponse quiz =
     (if \<not> truthy quiz then Inl (Error ''Invalid quiz format: missing questions array'')
      else
        (case getProp quiz ''questions'' of
           Inl e \<Rightarrow> Inl e
         | Inr questions \<Rightarrow>
             if \<not> isArray questions
             then Inl (Error ''Invalid quiz format: missing questions array'')
             else if length (elems questions) \<noteq> 10
             then Inl (Error (''Invalid quiz format: expected 10 questions, got ''
                              @ show_nat (length (elems questions))))
             else
               (case checkQuestions 0 (elems questions) of
                  Inl e \<Rightarrow> Inl e
                | Inr _ \<Rightarrow> Inr True)))"

subsection \<open>validateInsightsResponse (dashboard.js) and validateInsights (the weekly job)\<close>

definition requiredFields :: "string list" where
  "requiredFields =
     [''salaryRanges'', ''growthRate'', ''demandLevel'', ''topSkills'',
      ''marketOutlook'', ''keyTrends'', ''recommendedSkills'']"

text \<open>\<^verbatim>\<open>for (const field of requiredFields) if (!(field in data)) throw ...\<close>\<close>

fun checkRequired :: "string list \<Rightarrow> jsval \<Rightarrow> js_error + unit" where
  "checkRequired [] data = Inr ()"
| "checkRequired (field # fields) data =
     (case hasField field data of
        Inl e \<Rightarrow> Inl e
      | Inr present \<Rightarrow>
          if \<not> present then Inl (Error (''Missing required field: '' @ field))
          else checkRequired fields data)"

definition demandLevels :: "jsval list" where
  "demandLevels = [JStr ''HIGH'', JStr ''MEDIUM'', JStr ''LOW'']"

definition marketOutlooks :: "jsval list" where
  "marketOutlooks = [JStr ''POSITIVE'', JStr ''NEUTRAL'', JStr ''NEGATIVE'']"

text \<open>
  The four checks after the presence loop, which both validators make in the same order,
  each with its own message.
\<close>

definition checkShapes :: "string \<Rightarrow> string \<Rightarrow> string \<Rightarrow> string \<Rightarrow> jsval \<Rightarrow> js_error + bool" where
  "checkShapes msgSalary msgSkills msgDemand msgOutlook data =
     (case getProp data ''salaryRanges'' of
        Inl e \<Rightarrow> Inl e
      | Inr salaryRanges \<Rightarrow>
          if \<not> isArray salaryRanges \<or> length (elems salaryRanges) < 3 then Inl (Error msgSalary)
          else
            (case getProp data ''topSkills'' of
               Inl e \<Rightarrow> Inl e
             | Inr topSkills \<Rightarrow>
                 if \<not> isArray topSkills \<or> length (elems topSkills) < 5 then Inl (Error msgSkills)
                 else
                   (case getProp data ''demandLevel'' of
                      Inl e \<Rightarrow> Inl e
                    | Inr demandLevel \<Rightarrow>
                        if \<not> arrayIncludes demandLevels demandLevel then Inl (Error msgDemand)
                        else
                          (case getProp data ''marketOutlook'' of
                             Inl e \<Rightarrow> Inl e
                           | Inr marketOutlook \<Rightarrow>
                               if \<not> arrayIncludes marketOutlooks marketOutlook
                               then Inl (Error msgOutlook)
                               else Inr True))))"

definition validateInsightsResponse :: "jsval \<Rightarrow> js_error + bool" where
  "validateInsightsResponse data =
     (case checkRequired requiredFields data of
        Inl e \<Rightarrow> Inl e
      | Inr _ \<Rightarrow>
          checkShapes
            ''Invalid salaryRanges: must be array with at least 3 items''
            ''Invalid topSkills: must be array with at least 5 items''
            ''Invalid demandLevel: must be HIGH, MEDIUM, or LOW''
            ''Invalid marketOutlook: must be POSITIVE, NEUTRAL, or NEGATIVE''
            data)"

text \<open>\<^verbatim>\<open>typeof v === 'object'\<close>\<close>

definition typeofObject :: "jsval \<Rightarrow> bool" where
  "typeofObject v = (case v of JNull \<Rightarrow> True | JArr _ \<Rightarrow> True | JObj _ \<Rightarrow> True | _ \<Rightarrow> False)"

definition validateInsights :: "jsval \<Rightarrow> string \<Rightarrow> js_error + bool" where
  "validateInsights insights industry =
     (if \<not> truthy insights \<or> \<not> typeofObject insights
      then Inl (Error (''Invalid insights object for '' @ industry))
      else
        (case checkRequired requiredFields insights of
           Inl e \<Rightarrow> Inl e
         | Inr _ \<Rightarrow>
             checkShapes
               ''salaryRanges must be an array with at least 3 items''
               ''topSkills must be an array with at least 5 items''
               ''demandLevel must be HIGH, MEDIUM, or LOW''
               ''marketOutlook must be POSITIVE, NEUTRAL, or NEGATIVE''
               insights))"

section \<open>The world of the actions\<close>

text \<open>
  The actions reach three collaborators: the text-generation provider, the clock and
  the record store. They run one after the other, so the model passes a world from
  step to step and returns it. Times are milliseconds since the epoch. The clock moves
  when an action sleeps; the other steps take no time in the model.
\<close>

record user =
  userId :: string
  email :: string
  name :: "string option"
  userIndustry :: "string option"
  experience :: real
  bio :: string
  skills :: "string list"

record coverLetterData =
  jobTitle :: string
  companyName :: string
  jobDescription :: string

text \<open>
  The wording of a prompt is a template around a few parameters; a prompt is kept as the
  template's name and its parameters.
\<close>

datatype prompt =
    InsightsPrompt string
  | JobPrompt string
  | QuizPrompt string "string list"
  | CoverLetterPrompt coverLetterData user
  | ImprovePrompt string string string

datatype event =
    Generate prompt
  | Sleep int
  | StepSleep int
  | CreateInsight string
  | UpdateInsight string
  | UpsertInsight string
  | UpsertUser string
  | CreateCoverLetter nat
  | UpdateCoverLetter nat

record insight =
  industry :: string
  salaryRanges :: jsval
  growthRate :: jsval
  demandLevel :: jsval
  topSkills :: jsval
  marketOutlook :: jsval
  keyTrends :: jsval
  recommendedSkills :: jsval
  lastUpdated :: int
  nextUpdate :: int

record coverLetter =
  letterId :: nat
  letterUser :: string
  content :: string
  letterJobDescription :: string
  letterCompanyName :: string
  letterJobTitle :: string
  status :: string
  createdAt :: int

record assessment =
  assessmentUser :: string
  assessmentCreatedAt :: int

record resume =
  resumeContent :: string
  updatedAt :: int

text \<open>
  The store keeps each collection in the order of creation. Insight records are keyed by
  their unique industry, users by the identity provider's id, resumes by their user.
\<close>

record world =
  clock :: int
  calls :: nat
  trace :: "event list"
  insightStore :: "(string \<times> insight) list"
  userStore :: "(string \<times> user) list"
  coverLetterStore :: "coverLetter list"
  assessmentStore :: "assessment list"
  resumeStore :: "(string \<times> resume) list"
  nextId :: nat

text \<open>
  The provider answers the n-th call of a run, on a prompt, with a text or by throwing.
  \<^verbatim>\<open>JSON.parse\<close> is a parameter of the actions that parse: it gives the value, or the
  message of its SyntaxError.
\<close>

type_synonym provider = "nat \<Rightarrow> prompt \<Rightarrow> js_error + string"

type_synonym parser = "string \<Rightarrow> string + jsval"

definition generateContent :: "provider \<Rightarrow> prompt \<Rightarrow> world \<Rightarrow> (js_error + string) \<times> world" where
  "generateContent gen p w =
     (gen (calls w) p, w\<lparr>calls := calls w + 1, trace := trace w @ [Generate p]\<rparr>)"

definition sleep :: "int \<Rightarrow> world \<Rightarrow> world" where
  "sleep ms w = w\<lparr>clock := clock w + ms, trace := trace w @ [Sleep ms]\<rparr>"


definition CACHE_DURATION_DAYS :: int where
  "CACHE_DURATION_DAYS = 7"


definition MAX_RETRIES :: nat where
  "MAX_RETRIES = 2"

definition HOURLY_AI_LIMIT :: nat where
  "HOURLY_AI_LIMIT = 20"

definition DAILY_QUIZ_LIMIT :: nat where
  "DAILY_QUIZ_LIMIT = 5"

definition DAILY_LIMIT :: nat where
  "DAILY_LIMIT = 10"

section \<open>Retry executor\<close>

text \<open>
  callGeminiWithRetry and generateWithRetry are the same loop around different attempts:
  \<^verbatim>\<open>
  let lastError;
  for (let attempt = 0; attempt <= maxRetries; attempt++) {
    try { ...; return value; }
    catch (error) {
      lastError = error;
      if (attempt < maxRetries)
        await new Promise(resolve => setTimeout(resolve, base * (attempt + 1)));
    }
  }
  throw new Error(`... ${lastError.message}`);
  \<close>
  The loop is written once, over the attempt, the base delay and the final error.
  Reading \<^verbatim>\<open>lastError.message\<close> when no attempt has run is a TypeError.
\<close>

function retryLoop ::
  "(world \<Rightarrow> (js_error + 'a) \<times> world) \<Rightarrow> int \<Rightarrow> (string \<Rightarrow> js_error) \<Rightarrow> nat \<Rightarrow> nat
   \<Rightarrow> js_error option \<Rightarrow> world \<Rightarrow> (js_error + 'a) \<times> world" where
  "retryLoop body base final maxRetries attempt lastError w =
     (if attempt \<le> maxRetries then
        (case body w of
           (Inr v, w1) \<Rightarrow> (Inr v, w1)
         | (Inl e, w1) \<Rightarrow>
             retryLoop body base final maxRetries (attempt + 1) (Some e)
               (if attempt < maxRetries then sleep (base * (int attempt + 1)) w1 else w1))
      else
        (case lastError of
           None \<Rightarrow>
             (Inl (TypeError (''Cannot read properties of undefined (reading ''
                              @ quote @ ''message'' @ quote @ '')'')), w)
         | Some e \<Rightarrow> (Inl (final (message e)), w)))"
  by pat_completeness auto
termination
  by (relation "measure (\<lambda>(body, base, final, maxRetries, attempt, lastError, w).
                   Suc maxRetries - attempt)") auto

declare retryLoop.simps [simp del]

text \<open>
  The attempt of callGeminiWithRetry: one provider call, then the rest of the \<^verbatim>\<open>try\<close>
  on its outcome, which trims the text and throws on an empty one.
\<close>

definition geminiText :: "js_error + string \<Rightarrow> js_error + string" where
  "geminiText response =
     (case response of
        Inl e \<Rightarrow> Inl e
      | Inr r \<Rightarrow>
          (let t = trim r
           in if t = [] then Inl (Error ''Empty response from AI'') else Inr t))"

definition geminiAttempt :: "provider \<Rightarrow> prompt \<Rightarrow> world \<Rightarrow> (js_error + string) \<times> world" where
  "geminiAttempt gen p w =
     (case generateContent gen p w of (response, w1) \<Rightarrow> (geminiText response, w1))"

definition callGeminiWithRetry ::
  "provider \<Rightarrow> prompt \<Rightarrow> nat \<Rightarrow> world \<Rightarrow> (js_error + string) \<times> world" where
  "callGeminiWithRetry gen p maxRetries w =
     retryLoop (geminiAttempt gen p) 1000
       (\<lambda>m. Error (''AI service unavailable after '' @ show_nat (maxRetries + 1)
                    @ '' attempts: '' @ m))
       maxRetries 0 None w"

text \<open>
  The attempt of generateWithRetry: one provider call, then the rest of the \<^verbatim>\<open>try\<close>
  on its outcome: the empty check, the cleaning, the parse and validateInsights.
\<close>

definition jobInsights :: "parser \<Rightarrow> string \<Rightarrow> js_error + string \<Rightarrow> js_error + jsval" where
  "jobInsights parse ind response =
     (case response of
        Inl e \<Rightarrow> Inl e
      | Inr r \<Rightarrow>
          if r = [] \<or> length (trim r) = 0 then Inl (Error ''Empty response from AI'')
          else
            (case parse (cleanTextJob r) of
               Inl m \<Rightarrow> Inl (SyntaxError m)
             | Inr parsed \<Rightarrow>
                 (case validateInsights parsed ind of
                    Inl e \<Rightarrow> Inl e
                  | Inr _ \<Rightarrow> Inr parsed)))"

definition insightsAttempt ::
  "parser \<Rightarrow> provider \<Rightarrow> prompt \<Rightarrow> string \<Rightarrow> world \<Rightarrow> (js_error + jsval) \<times> world" where
  "insightsAttempt parse gen p ind w =
     (case generateContent gen p w of (response, w1) \<Rightarrow> (jobInsights parse ind response, w1))"

definition generateWithRetry ::
  "parser \<Rightarrow> provider \<Rightarrow> prompt \<Rightarrow> string \<Rightarrow> world \<Rightarrow> (js_error + jsval) \<times> world" where
  "generateWithRetry parse gen p ind w =
     retryLoop (insightsAttempt parse gen p ind) 2000
       (\<lambda>m. Error (''Failed after '' @ show_nat (MAX_RETRIES + 1) @ '' attempts: '' @ m))
       MAX_RETRIES 0 None w"

section \<open>Insight store\<close>

definition cacheMs :: int where
  "cacheMs = CACHE_DURATION_DAYS * 24 * 60 * 60 * 1000"

text \<open>
  Modelled from the spec: the schema of the record store is not part of the sources. The
  spec's data model gives an insight record the fields of the record \<open>insight\<close>, keyed
  by its unique industry, with \<open>nextUpdate = lastUpdated + 7 days\<close> from its creation
  on. So a create that is given no \<open>lastUpdated\<close> stores the time of the creation, an
  update writes the fields it is given and no other, and a field given as
  \<^verbatim>\<open>undefined\<close> is left as it is. The store keeps the values it is given without
  checking their types.
\<close>

definition keep :: "jsval \<Rightarrow> jsval \<Rightarrow> jsval" where
  "keep new old = (if new = JUndefined then old else new)"

text \<open>\<^verbatim>\<open>insights.k\<close> on a value that passed validation, which is an object.\<close>

definition fieldOf :: "jsval \<Rightarrow> string \<Rightarrow> jsval" where
  "fieldOf v k = (case getProp v k of Inl _ \<Rightarrow> JUndefined | Inr x \<Rightarrow> x)"

text \<open>The seven insight fields, written one by one from the generated object.\<close>

definition writeInsightFields :: "jsval \<Rightarrow> insight \<Rightarrow> insight" where
  "writeInsightFields insights r =
     r\<lparr>salaryRanges := keep (fieldOf insights ''salaryRanges'') (salaryRanges r),
       growthRate := keep (fieldOf insights ''growthRate'') (growthRate r),
       demandLevel := keep (fieldOf insights ''demandLevel'') (demandLevel r),
       topSkills := keep (fieldOf insights ''topSkills'') (topSkills r),
       marketOutlook := keep (fieldOf insights ''marketOutlook'') (marketOutlook r),
       keyTrends := keep (fieldOf insights ''keyTrends'') (keyTrends r),
       recommendedSkills := keep (fieldOf insights ''recommendedSkills'') (recommendedSkills r)\<rparr>"

definition newInsight :: "string \<Rightarrow> jsval \<Rightarrow> int \<Rightarrow> int \<Rightarrow> insight" where
  "newInsight ind insights lastUpd nextUpd =
     \<lparr>industry = ind,
      salaryRanges = fieldOf insights ''salaryRanges'',
      growthRate = fieldOf insights ''growthRate'',
      demandLevel = fieldOf insights ''demandLevel'',
      topSkills = fieldOf insights ''topSkills'',
      marketOutlook = fieldOf insights ''marketOutlook'',
      keyTrends = fieldOf insights ''keyTrends'',
      recommendedSkills = fieldOf insights ''recommendedSkills'',
      lastUpdated = lastUpd,
      nextUpdate = nextUpd\<rparr>"

text \<open>\<^verbatim>\<open>db.industryInsight.create\<close>: the industry is unique.\<close>

definition createInsight :: "insight \<Rightarrow> world \<Rightarrow> (js_error + insight) \<times> world" where
  "createInsight r w =
     (case map_of (insightStore w) (industry r) of
        Some _ \<Rightarrow> (Inl (Error ''Unique constraint failed on the fields: (industry)''), w)
      | None \<Rightarrow>
          (Inr r, w\<lparr>insightStore := insightStore w @ [(industry r, r)],
                    trace := trace w @ [CreateInsight (industry r)]\<rparr>))"

text \<open>\<^verbatim>\<open>db.industryInsight.update\<close> of the record of an industry.\<close>

definition updateInsight ::
  "string \<Rightarrow> (insight \<Rightarrow> js_error + insight) \<Rightarrow> world \<Rightarrow> (js_error + insight) \<times> world" where
  "updateInsight ind change w =
     (case map_of (insightStore w) ind of
        None \<Rightarrow> (Inl (Error ''Record to update not found''), w)
      | Some r \<Rightarrow>
          (case change r of
             Inl e \<Rightarrow> (Inl e, w)
           | Inr r' \<Rightarrow>
               (Inr r', w\<lparr>insightStore := AList.update ind r' (insightStore w),
                          trace := trace w @ [UpdateInsight ind]\<rparr>)))"

text \<open>\<^verbatim>\<open>db.industryInsight.upsert\<close>: the update when the record is there, the create when not.\<close>

definition upsertInsight ::
  "string \<Rightarrow> (insight \<Rightarrow> insight) \<Rightarrow> insight \<Rightarrow> world \<Rightarrow> world" where
  "upsertInsight ind change fresh w =
     w\<lparr>insightStore :=
         (case map_of (insightStore w) ind of
            Some r \<Rightarrow> AList.update ind (change r) (insightStore w)
          | None \<Rightarrow> insightStore w @ [(ind, fresh)]),
       trace := trace w @ [UpsertInsight ind]\<rparr>"

section \<open>Insight cache manager (dashboard.js)\<close>

definition getAuthenticatedUser :: "string option \<Rightarrow> world \<Rightarrow> js_error + user" where
  "getAuthenticatedUser auth w =
     (case auth of
        None \<Rightarrow> Inl (Error ''Unauthorized'')
      | Some clerkUserId \<Rightarrow>
          (case map_of (userStore w) clerkUserId of
             None \<Rightarrow> Inl (Error ''User not found'')
           | Some u \<Rightarrow> Inr u))"

text \<open>
  \<^verbatim>\<open>include: { industryInsight: true }\<close>: the record the user's industry refers to.
\<close>

definition industryInsight :: "world \<Rightarrow> user \<Rightarrow> insight option" where
  "industryInsight w u =
     (case userIndustry u of None \<Rightarrow> None | Some ind \<Rightarrow> map_of (insightStore w) ind)"

text \<open>The \<^verbatim>\<open>try\<close> of generateAIInsights after the provider call, and its \<^verbatim>\<open>catch\<close>.\<close>

definition parsedInsights :: "parser \<Rightarrow> js_error + string \<Rightarrow> js_error + jsval" where
  "parsedInsights parse response =
     (case response of
        Inl e \<Rightarrow> Inl e
      | Inr t \<Rightarrow>
          (case parse (cleanText t) of
             Inl m \<Rightarrow> Inl (SyntaxError m)
           | Inr parsed \<Rightarrow>
               (case validateInsightsResponse parsed of
                  Inl e \<Rightarrow> Inl e
                | Inr _ \<Rightarrow> Inr parsed)))"

definition insightsCatch :: "js_error + jsval \<Rightarrow> js_error + jsval" where
  "insightsCatch r =
     (case r of
        Inr parsed \<Rightarrow> Inr parsed
      | Inl error \<Rightarrow>
          if isSyntaxError error then Inl (Error ''Failed to parse AI response as valid JSON'')
          else Inl (Error (''Failed to generate industry insights: '' @ message error)))"

definition generateAIInsights ::
  "parser \<Rightarrow> provider \<Rightarrow> string option \<Rightarrow> world \<Rightarrow> (js_error + jsval) \<times> world" where
  "generateAIInsights parse gen industryArg w =
     (case industryArg of
        None \<Rightarrow> (Inl (Error ''Industry is required to generate insights''), w)
      | Some ind \<Rightarrow>
          if trim ind = [] then (Inl (Error ''Industry is required to generate insights''), w)
          else
            (case generateContent gen (InsightsPrompt ind) w of
               (response, w1) \<Rightarrow> (insightsCatch (parsedInsights parse response), w1)))"

definition shouldRefreshInsights :: "insight option \<Rightarrow> int \<Rightarrow> bool" where
  "shouldRefreshInsights ins now =
     (case ins of None \<Rightarrow> True | Some i \<Rightarrow> now > nextUpdate i)"

definition getNextUpdateDate :: "int \<Rightarrow> int" where
  "getNextUpdateDate now = now + CACHE_DURATION_DAYS * 24 * 60 * 60 * 1000"

text \<open>
  The write both getIndustryInsights and refreshIndustryInsights end with: an update of
  the seven fields and \<open>nextUpdate\<close> when the user has a record, a create when not.
\<close>

definition storeInsights ::
  "string \<Rightarrow> insight option \<Rightarrow> jsval \<Rightarrow> world \<Rightarrow> (js_error + insight) \<times> world" where
  "storeInsights ind existing insights w =
     (case existing of
        Some r \<Rightarrow>
          updateInsight (industry r)
            (\<lambda>old. Inr ((writeInsightFields insights old)
                           \<lparr>nextUpdate := getNextUpdateDate (clock w)\<rparr>)) w
      | None \<Rightarrow>
          createInsight (newInsight ind insights (clock w) (getNextUpdateDate (clock w))) w)"

text \<open>The generation and the write, which follow the cache check of the getter and open the refresh.\<close>

definition regenerate ::
  "parser \<Rightarrow> provider \<Rightarrow> string \<Rightarrow> insight option \<Rightarrow> world \<Rightarrow> (js_error + insight) \<times> world" where
  "regenerate parse gen ind existing w =
     (case generateAIInsights parse gen (Some ind) w of
        (Inl e, w1) \<Rightarrow> (Inl e, w1)
      | (Inr insights, w1) \<Rightarrow> storeInsights ind existing insights w1)"

definition getIndustryInsights ::
  "parser \<Rightarrow> provider \<Rightarrow> string option \<Rightarrow> world \<Rightarrow> (js_error + insight) \<times> world" where
  "getIndustryInsights parse gen auth w =
     (case getAuthenticatedUser auth w of
        Inl e \<Rightarrow> (Inl e, w)
      | Inr u \<Rightarrow>
          (case userIndustry u of
             None \<Rightarrow> (Inl (Error ''User industry not set. Please update your profile.''), w)
           | Some ind \<Rightarrow>
               if trim ind = []
               then (Inl (Error ''User industry not set. Please update your profile.''), w)
               else
                 (case industryInsight w u of
                    Some r \<Rightarrow>
                      if \<not> shouldRefreshInsights (Some r) (clock w) then (Inr r, w)
                      else regenerate parse gen ind (Some r) w
                  | None \<Rightarrow> regenerate parse gen ind None w)))"

definition refreshIndustryInsights ::
  "parser \<Rightarrow> provider \<Rightarrow> string option \<Rightarrow> world \<Rightarrow> (js_error + insight) \<times> world" where
  "refreshIndustryInsights parse gen auth w =
     (case getAuthenticatedUser auth w of
        Inl e \<Rightarrow> (Inl e, w)
      | Inr u \<Rightarrow>
          (case userIndustry u of
             None \<Rightarrow> (Inl (Error ''User industry not set. Please update your profile.''), w)
           | Some ind \<Rightarrow>
               if trim ind = []
               then (Inl (Error ''User industry not set. Please update your profile.''), w)
               else regenerate parse gen ind (industryInsight w u) w))"

section \<open>Profile setup (updateUser)\<close>

datatype skillsInput = NoSkills | SkillsArray "string list" | SkillsString string | SkillsOther

record profileData =
  dataIndustry :: string
  dataExperience :: real
  dataBio :: string
  dataSkills :: skillsInput
  dataEmail :: string
  dataName :: "string option"

text \<open>\<^verbatim>\<open>s.split(",")\<close>\<close>

fun splitComma :: "string \<Rightarrow> string list" where
  "splitComma [] = [] # []"
| "splitComma (c # cs) =
     (if c = CHR '','' then [] # splitComma cs
      else (case splitComma cs of [] \<Rightarrow> [c] # [] | x # xs \<Rightarrow> (c # x) # xs))"

definition normalizeSkills :: "skillsInput \<Rightarrow> string list" where
  "normalizeSkills input =
     (case input of
        NoSkills \<Rightarrow> []
      | SkillsArray xs \<Rightarrow> filter (\<lambda>x. x \<noteq> []) (map trim xs)
      | SkillsString x \<Rightarrow>
          if x = [] then [] else filter (\<lambda>y. y \<noteq> []) (map trim (splitComma x))
      | SkillsOther \<Rightarrow> [])"

text \<open>The record updateUser creates first when the industry has none.\<close>

definition placeholder :: "string \<Rightarrow> int \<Rightarrow> insight" where
  "placeholder ind now =
     \<lparr>industry = ind,
      salaryRanges = JArr [],
      growthRate = JNum 0,
      demandLevel = JStr ''MEDIUM'',
      topSkills = JArr [],
      marketOutlook = JStr ''NEUTRAL'',
      keyTrends = JArr [],
      recommendedSkills = JArr [],
      lastUpdated = now,
      nextUpdate = now + 7 * 24 * 60 * 60 * 1000\<rparr>"

text \<open>\<^verbatim>\<open>db.user.upsert\<close> by the identity provider's id.\<close>

definition upsertUser :: "string \<Rightarrow> profileData \<Rightarrow> string list \<Rightarrow> world \<Rightarrow> user \<times> world" where
  "upsertUser clerkUserId d normalizedSkills w =
     (let u =
        (case map_of (userStore w) clerkUserId of
           Some old \<Rightarrow>
             old\<lparr>userIndustry := Some (dataIndustry d), experience := dataExperience d,
                 bio := dataBio d, skills := normalizedSkills\<rparr>
         | None \<Rightarrow>
             \<lparr>userId = show_nat (nextId w), email = dataEmail d, name = dataName d,
              userIndustry = Some (dataIndustry d), experience = dataExperience d,
              bio = dataBio d, skills = normalizedSkills\<rparr>)
      in (u, w\<lparr>userStore := AList.update clerkUserId u (userStore w),
                nextId := (case map_of (userStore w) clerkUserId of
                             Some _ \<Rightarrow> nextId w | None \<Rightarrow> nextId w + 1),
                trace := trace w @ [UpsertUser clerkUserId]\<rparr>))"

text \<open>
  The steps of updateUser inside its \<^verbatim>\<open>try\<close>. The update with \<^verbatim>\<open>data: insights\<close>
  hands the whole generated object to the store; what the store makes of an object
  against its schema is the parameter \<open>writeObject\<close>. Whatever the inner \<^verbatim>\<open>try\<close>
  throws, from the generation or from that update, is caught and dropped.
\<close>

definition ensureInsight ::
  "(jsval \<Rightarrow> insight \<Rightarrow> js_error + insight) \<Rightarrow> parser \<Rightarrow> provider \<Rightarrow> string \<Rightarrow> world
   \<Rightarrow> js_error + world" where
  "ensureInsight writeObject parse gen ind w =
     (case map_of (insightStore w) ind of
        Some _ \<Rightarrow> Inr w
      | None \<Rightarrow>
          (case createInsight (placeholder ind (clock w)) w of
             (Inl e, _) \<Rightarrow> Inl e
           | (Inr _, w1) \<Rightarrow>
               (case generateAIInsights parse gen (Some ind) w1 of
                  (Inl aiError, w2) \<Rightarrow> Inr w2
                | (Inr insights, w2) \<Rightarrow>
                    (case updateInsight ind (writeObject insights) w2 of
                       (Inl aiError, w3) \<Rightarrow> Inr w3
                     | (Inr _, w3) \<Rightarrow> Inr w3))))"

definition updateUser ::
  "(jsval \<Rightarrow> insight \<Rightarrow> js_error + insight) \<Rightarrow> parser \<Rightarrow> provider \<Rightarrow> string option
   \<Rightarrow> profileData \<Rightarrow> world \<Rightarrow> (js_error + user) \<times> world" where
  "updateUser writeObject parse gen auth d w =
     (case auth of
        None \<Rightarrow> (Inl (Error ''Unauthorized''), w)
      | Some clerkUserId \<Rightarrow>
          (let normalizedSkills = normalizeSkills (dataSkills d)
           in case ensureInsight writeObject parse gen (dataIndustry d) w of
                Inl error \<Rightarrow> (Inl (Error ''Failed to update profile''), w)
              | Inr w1 \<Rightarrow>
                  (case upsertUser clerkUserId d normalizedSkills w1 of
                     (u, w2) \<Rightarrow> (Inr u, w2))))"

section \<open>Weekly refresh job (generateIndustryInsights)\<close>

record failure =
  failedIndustry :: string
  failureError :: string
  failureTimestamp :: int

record stats =
  total :: nat
  successful :: nat
  failed :: nat
  skipped :: nat
  startTime :: int
  failures :: "failure list"
  endTime :: "int option"
  durationMs :: "int option"
  durationMinutes :: "int option"
  jobMessage :: "string option"

text \<open>
  A step of the workflow runner is run as the call it wraps. The body of the loop for
  one industry, inside its \<^verbatim>\<open>try\<close>: generate with retries, then upsert, then count the
  success; the \<^verbatim>\<open>catch\<close> counts the failure and records it with the time.
\<close>

definition refreshOne :: "parser \<Rightarrow> provider \<Rightarrow> string \<Rightarrow> stats \<times> world \<Rightarrow> stats \<times> world" where
  "refreshOne parse gen ind sw =
     (case sw of
        (st, w) \<Rightarrow>
          (case generateWithRetry parse gen (JobPrompt ind) ind w of
             (Inr insights, w1) \<Rightarrow>
               (st\<lparr>successful := successful st + 1\<rparr>,
                upsertInsight ind
                  (\<lambda>old. (writeInsightFields insights old)
                            \<lparr>lastUpdated := clock w1,
                             nextUpdate := clock w1 + CACHE_DURATION_DAYS * 24 * 60 * 60 * 1000\<rparr>)
                  (newInsight ind insights (clock w1)
                     (clock w1 + CACHE_DURATION_DAYS * 24 * 60 * 60 * 1000))
                  w1)
           | (Inl error, w1) \<Rightarrow>
               (st\<lparr>failed := failed st + 1,
                   failures := failures st
                     @ [\<lparr>failedIndustry = ind, failureError = message error,
                         failureTimestamp = clock w1\<rparr>]\<rparr>,
                w1)))"



section \<open>Quota-limited actions\<close>

text \<open>
  \<^verbatim>\<open>const today = new Date(); today.setHours(0, 0, 0, 0);\<close> is the start of the
  current day in the local time of the server. Which instant that is follows the rules of
  the server's zone, clock changes included, and these are not part of the sources: the
  zone is a parameter, the function \<open>midnight\<close> that gives, for the instant of the call,
  the instant \<^verbatim>\<open>today\<close>.
\<close>

type_synonym zone = "int \<Rightarrow> int"

subsection \<open>generateCoverLetter (cover-letter.js)\<close>

definition todayCount :: "zone \<Rightarrow> user \<Rightarrow> world \<Rightarrow> nat" where
  "todayCount midnight u w =
     (let today = midnight (clock w)
      in length (filter (\<lambda>c. letterUser c = userId u \<and> createdAt c \<ge> today)
                   (coverLetterStore w)))"

text \<open>
  Modelled from the spec: the schema of the store is not part of the sources; an
  artifact has a creation timestamp, which the store sets to the time of the create, and
  an id of its own, here the next number.
\<close>

definition createCoverLetter :: "coverLetterData \<Rightarrow> user \<Rightarrow> world \<Rightarrow> coverLetter \<times> world" where
  "createCoverLetter d u w =
     (let c = \<lparr>letterId = nextId w, letterUser = userId u, content = [],
               letterJobDescription = jobDescription d, letterCompanyName = companyName d,
               letterJobTitle = jobTitle d, status = ''pending'', createdAt = clock w\<rparr>
      in (c, w\<lparr>coverLetterStore := coverLetterStore w @ [c], nextId := nextId w + 1,
                trace := trace w @ [CreateCoverLetter (letterId c)]\<rparr>))"

definition updateCoverLetter ::
  "nat \<Rightarrow> (coverLetter \<Rightarrow> coverLetter) \<Rightarrow> world \<Rightarrow> world" where
  "updateCoverLetter i change w =
     w\<lparr>coverLetterStore :=
         map (\<lambda>c. if letterId c = i then change c else c) (coverLetterStore w),
       trace := trace w @ [UpdateCoverLetter i]\<rparr>"

text \<open>The \<^verbatim>\<open>try\<close> of generateCoverLetter after the provider call, up to the update.\<close>

definition letterText :: "js_error + string \<Rightarrow> js_error + string" where
  "letterText response =
     (case response of
        Inl e \<Rightarrow> Inl e
      | Inr t \<Rightarrow> if trim t = [] then Inl (Error ''Empty response from AI'') else Inr (trim t))"

definition generateCoverLetter ::
  "zone \<Rightarrow> provider \<Rightarrow> string option \<Rightarrow> coverLetterData option \<Rightarrow> world
   \<Rightarrow> (js_error + coverLetter) \<times> world" where
  "generateCoverLetter midnight gen auth dataArg w =
     (case dataArg of
        None \<Rightarrow>
          (Inl (Error ''Missing required fields: jobTitle, companyName, and jobDescription''), w)
      | Some d \<Rightarrow>
          if jobTitle d = [] \<or> companyName d = [] \<or> jobDescription d = []
          then (Inl (Error ''Missing required fields: jobTitle, companyName, and jobDescription''), w)
          else
            (case getAuthenticatedUser auth w of
               Inl e \<Rightarrow> (Inl e, w)
             | Inr u \<Rightarrow>
                 if todayCount midnight u w \<ge> DAILY_LIMIT
                 then (Inl (Error (''Daily limit of '' @ show_nat DAILY_LIMIT
                                   @ '' cover letters reached. Try again tomorrow.'')), w)
                 else
                   (case createCoverLetter d u w of
                      (coverLetter, w1) \<Rightarrow>
                        (case generateContent gen (CoverLetterPrompt d u) w1 of
                           (response, w2) \<Rightarrow>
                             (case letterText response of
                                Inr generated \<Rightarrow>
                                  (let w3 = updateCoverLetter (letterId coverLetter)
                                              (\<lambda>c. c\<lparr>content := generated, status := ''completed''\<rparr>) w2
                                   in (Inr (coverLetter\<lparr>content := generated,
                                                        status := ''completed''\<rparr>), w3))
                              | Inl error \<Rightarrow>
                                  (let w3 = updateCoverLetter (letterId coverLetter)
                                              (\<lambda>c. c\<lparr>status := ''failed''\<rparr>) w2
                                   in (Inl (Error (''Failed to generate cover letter: ''
                                                   @ message error)), w3)))))))"

subsection \<open>generateQuiz (interview.js)\<close>

definition todayQuizCount :: "zone \<Rightarrow> user \<Rightarrow> world \<Rightarrow> nat" where
  "todayQuizCount midnight u w =
     (let today = midnight (clock w)
      in length (filter (\<lambda>a. assessmentUser a = userId u \<and> assessmentCreatedAt a \<ge> today)
                   (assessmentStore w)))"

text \<open>The \<^verbatim>\<open>try\<close> of generateQuiz after the provider call, and its \<^verbatim>\<open>catch\<close>.\<close>

definition quizQuestions :: "parser \<Rightarrow> js_error + string \<Rightarrow> js_error + jsval" where
  "quizQuestions parse response =
     (case response of
        Inl e \<Rightarrow> Inl e
      | Inr t \<Rightarrow>
          if trim t = [] then Inl (Error ''Empty response from AI'')
          else
            (case parse (cleanText t) of
               Inl m \<Rightarrow> Inl (SyntaxError m)
             | Inr quiz \<Rightarrow>
                 (case validateQuizResponse quiz of
                    Inl e \<Rightarrow> Inl e
                  | Inr _ \<Rightarrow> getProp quiz ''questions'')))"

definition quizCatch :: "js_error + jsval \<Rightarrow> js_error + jsval" where
  "quizCatch r =
     (case r of
        Inr questions \<Rightarrow> Inr questions
      | Inl error \<Rightarrow>
          if isSyntaxError error then Inl (Error ''Failed to parse AI response as valid JSON'')
          else Inl (Error (''Failed to generate quiz questions: '' @ message error)))"

definition generateQuiz ::
  "zone \<Rightarrow> parser \<Rightarrow> provider \<Rightarrow> string option \<Rightarrow> world \<Rightarrow> (js_error + jsval) \<times> world" where
  "generateQuiz midnight parse gen auth w =
     (case getAuthenticatedUser auth w of
        Inl e \<Rightarrow> (Inl e, w)
      | Inr u \<Rightarrow>
          if todayQuizCount midnight u w \<ge> DAILY_QUIZ_LIMIT
          then (Inl (Error (''Daily quiz limit reached ('' @ show_nat DAILY_QUIZ_LIMIT
                            @ '' per day). Try again tomorrow.'')), w)
          else
            (case userIndustry u of
               None \<Rightarrow>
                 (Inl (Error ''Please set your industry in your profile before generating quizzes''), w)
             | Some ind \<Rightarrow>
                 if ind = []
                 then (Inl (Error ''Please set your industry in your profile before generating quizzes''), w)
                 else
                   (case generateContent gen (QuizPrompt ind (skills u)) w of
                      (response, w1) \<Rightarrow> (quizCatch (quizQuestions parse response), w1))))"

subsection \<open>improveWithAI (resume)\<close>

text \<open>
  The two arguments are strings, so the \<^verbatim>\<open>typeof\<close> checks of the input pass; the
  call of callGeminiWithRetry takes the default of two retries.
\<close>

text \<open>\<^verbatim>\<open>toLowerCase\<close> on the letters A to Z; the valid types are ASCII.\<close>

definition toLowerCase :: "string \<Rightarrow> string" where
  "toLowerCase s =
     map (\<lambda>c. case map_of (zip ''ABCDEFGHIJKLMNOPQRSTUVWXYZ'' ''abcdefghijklmnopqrstuvwxyz'') c of
               Some l \<Rightarrow> l
             | None \<Rightarrow> c) s"

definition validTypes :: "string list" where
  "validTypes = [''summary'', ''experience'', ''skill'', ''project'', ''education'']"

definition recentImprovements :: "user \<Rightarrow> world \<Rightarrow> (string \<times> resume) list" where
  "recentImprovements u w =
     filter (\<lambda>(owner, r). owner = userId u \<and> updatedAt r \<ge> clock w - 60 * 60 * 1000)
       (resumeStore w)"

definition improveWithAI ::
  "provider \<Rightarrow> string option \<Rightarrow> string \<Rightarrow> string \<Rightarrow> world \<Rightarrow> (js_error + string) \<times> world" where
  "improveWithAI gen auth current typeArg w =
     (if current = [] \<or> length (trim current) = 0
      then (Inl (Error ''Current content is required and cannot be empty''), w)
      else if length current > 5000
      then (Inl (Error ''Content is too long (max 5000 characters per section)''), w)
      else if typeArg = [] then (Inl (Error ''Content type is required''), w)
      else if toLowerCase typeArg \<notin> set validTypes
      then (Inl (Error ''Invalid type. Must be one of: summary, experience, skill, project, education''), w)
      else
        (case getAuthenticatedUser auth w of
           Inl e \<Rightarrow> (Inl e, w)
         | Inr u \<Rightarrow>
             if userIndustry u = None \<or> userIndustry u = Some []
             then (Inl (Error ''Please set your industry in your profile before using AI improvements''), w)
             else if length (recentImprovements u w) \<ge> HOURLY_AI_LIMIT
             then (Inl (Error (''Rate limit reached ('' @ show_nat HOURLY_AI_LIMIT
                               @ '' improvements per hour). Please try again later.'')), w)
             else
               (case callGeminiWithRetry gen
                       (ImprovePrompt (toLowerCase typeArg) current (case userIndustry u of Some i \<Rightarrow> i | None \<Rightarrow> []))
                       2 w of
                  (Inl error, w1) \<Rightarrow>
                    (Inl (Error (''Failed to improve resume: '' @ message error)), w1)
                | (Inr improvedText, w1) \<Rightarrow>
                    if length improvedText < 10
                    then (Inl (Error (''Failed to improve resume: ''
                                      @ ''AI returned suspiciously short content'')), w1)
                    else (Inr improvedText, w1))))"

section \<open>Terms of the properties\<close>

text \<open>A run that starts at time 0 with an empty store.\<close>

definition emptyWorld :: world where
  "emptyWorld =
     \<lparr>clock = 0, calls = 0, trace = [], insightStore = [], userStore = [],
      coverLetterStore = [], assessmentStore = [], resumeStore = [], nextId = 0\<rparr>"

text \<open>
  What a retry loop that never succeeds leaves in the trace from attempt \<open>a\<close> on, when
  \<open>n\<close> retries are allowed: a provider call and a sleep of \<open>base\<close> times the number of
  the attempt, counted from 1, for every attempt but the last, and a last provider call.
\<close>

definition retryTrace :: "prompt \<Rightarrow> int \<Rightarrow> nat \<Rightarrow> nat \<Rightarrow> event list" where
  "retryTrace p base a n =
     concat (map (\<lambda>k. [Generate p, Sleep (base * (int k + 1))]) [a..<n]) @ [Generate p]"

definition retryDelay :: "int \<Rightarrow> nat \<Rightarrow> nat \<Rightarrow> int" where
  "retryDelay base a n = sum_list (map (\<lambda>k. base * (int k + 1)) [a..<n])"

text \<open>The clauses of the insight schema, in the spec's words.\<close>

definition allPresent :: "(string \<times> jsval) list \<Rightarrow> bool" where
  "allPresent kvs = list_all (\<lambda>f. f \<in> fst ` set kvs) requiredFields"

definition salaryOk :: "(string \<times> jsval) list \<Rightarrow> bool" where
  "salaryOk kvs = (case map_of kvs ''salaryRanges'' of Some (JArr xs) \<Rightarrow> 3 \<le> length xs | _ \<Rightarrow> False)"

definition skillsOk :: "(string \<times> jsval) list \<Rightarrow> bool" where
  "skillsOk kvs = (case map_of kvs ''topSkills'' of Some (JArr xs) \<Rightarrow> 5 \<le> length xs | _ \<Rightarrow> False)"

definition demandOk :: "(string \<times> jsval) list \<Rightarrow> bool" where
  "demandOk kvs = (map_of kvs ''demandLevel'' \<in> set [Some (JStr ''HIGH''), Some (JStr ''MEDIUM''), Some (JStr ''LOW'')])"

definition outlookOk :: "(string \<times> jsval) list \<Rightarrow> bool" where
  "outlookOk kvs = (map_of kvs ''marketOutlook'' \<in> set [Some (JStr ''POSITIVE''), Some (JStr ''NEUTRAL''), Some (JStr ''NEGATIVE'')])"

definition insightWellFormed :: "jsval \<Rightarrow> bool" where
  "insightWellFormed v =
     (case v of
        JObj kvs \<Rightarrow> allPresent kvs \<and> salaryOk kvs \<and> skillsOk kvs \<and> demandOk kvs \<and> outlookOk kvs
      | _ \<Rightarrow> False)"

text \<open>The value a property read of an object gives.\<close>

definition valueOf :: "(string \<times> jsval) list \<Rightarrow> string \<Rightarrow> jsval" where
  "valueOf kvs k = (case map_of kvs k of Some x \<Rightarrow> x | None \<Rightarrow> JUndefined)"

text \<open>A well-formed insight object, and one whose lists are too short.\<close>

definition sampleInsights :: jsval where
  "sampleInsights =
     JObj [(''salaryRanges'', JArr [JObj [(''role'', JStr ''Engineer'')], JObj [(''role'', JStr ''Analyst'')],
                                   JObj [(''role'', JStr ''Manager'')]]),
           (''growthRate'', JNum 15),
           (''demandLevel'', JStr ''HIGH''),
           (''topSkills'', JArr [JStr ''Python'', JStr ''SQL'', JStr ''React'', JStr ''AWS'', JStr ''Go'']),
           (''marketOutlook'', JStr ''POSITIVE''),
           (''keyTrends'', JArr [JStr ''AI'']),
           (''recommendedSkills'', JArr [JStr ''ML''])]"

definition shortInsights :: "(string \<times> jsval) list" where
  "shortInsights =
     [(''salaryRanges'', JArr []), (''growthRate'', JNum 1), (''demandLevel'', JStr ''HIGH''),
      (''topSkills'', JArr []), (''marketOutlook'', JStr ''POSITIVE''), (''keyTrends'', JArr []),
      (''recommendedSkills'', JArr [])]"

text \<open>A well-formed question.\<close>

definition validQuestion :: jsval where
  "validQuestion =
     JObj [(''question'', JStr ''Which structure is FIFO?''),
           (''options'', JArr [JStr ''Stack'', JStr ''Queue'', JStr ''Tree'', JStr ''Graph'']),
           (''correctAnswer'', JStr ''Queue''),
           (''explanation'', JStr ''A queue serves the oldest entry first.'')]"

text \<open>The clauses of the quiz schema, in the spec's words.\<close>

definition questionWellFormed :: "jsval \<Rightarrow> bool" where
  "questionWellFormed q =
     (case q of
        JObj kvs \<Rightarrow>
          (case map_of kvs ''question'' of Some (JStr s) \<Rightarrow> s \<noteq> [] | _ \<Rightarrow> False)
          \<and> (case map_of kvs ''options'' of
                Some (JArr os) \<Rightarrow>
                  length os = 4
                  \<and> (case map_of kvs ''correctAnswer'' of Some c \<Rightarrow> c \<in> set os | None \<Rightarrow> False)
              | _ \<Rightarrow> False)
          \<and> (case map_of kvs ''explanation'' of Some (JStr e) \<Rightarrow> e \<noteq> [] | _ \<Rightarrow> False)
      | _ \<Rightarrow> False)"

definition quizWellFormed :: "jsval \<Rightarrow> bool" where
  "quizWellFormed quiz =
     (case quiz of
        JObj kvs \<Rightarrow>
          (case map_of kvs ''questions'' of
             Some (JArr qs) \<Rightarrow> length qs = 10 \<and> list_all questionWellFormed qs
           | _ \<Rightarrow> False)
      | _ \<Rightarrow> False)"

text \<open>The four messages of the checks on a question.\<close>

definition clauses :: "string list" where
  "clauses = [''missing or invalid question text'', ''must have exactly 4 options'',
              ''correctAnswer must be one of the options'', ''missing or invalid explanation'']"

text \<open>A text holds a fence when three backticks stand somewhere in it.\<close>

fun containsFence :: "string \<Rightarrow> bool" where
  "containsFence [] = False"
| "containsFence (c # cs) = (take 3 (c # cs) = fence \<or> containsFence cs)"

text \<open>The JSON text of the string of three backticks.\<close>

definition quotedFence :: string where
  "quotedFence = [CHR 0x22] @ fence @ [CHR 0x22]"

text \<open>A user in the industry Tech, a record of that industry, and a world that holds both.\<close>

definition techUser :: user where
  "techUser =
     \<lparr>userId = ''u1'', email = ''dev@example.org'', name = None, userIndustry = Some ''Tech'',
      experience = 3, bio = ''Backend developer'', skills = [''Python'', ''SQL'']\<rparr>"

definition techRecord :: "int \<Rightarrow> int \<Rightarrow> insight" where
  "techRecord written due = (placeholder ''Tech'' written)\<lparr>nextUpdate := due\<rparr>"

definition techWorld :: "int \<Rightarrow> insight \<Rightarrow> world" where
  "techWorld now r =
     emptyWorld\<lparr>clock := now, userStore := [(''clerk1'', techUser)],
                insightStore := [(''Tech'', r)]\<rparr>"

text \<open>A provider that answers every call with one text, and a parser that reads that text as the sample insights.\<close>

definition okProvider :: provider where
  "okProvider = (\<lambda>k p. Inr ''ok'')"

definition okParser :: parser where
  "okParser = (\<lambda>s. if s = ''ok'' then Inr sampleInsights else Inl ''Unexpected token'')"

text \<open>A profile for the industry Tech, and a provider that is down.\<close>

definition techProfile :: profileData where
  "techProfile =
     \<lparr>dataIndustry = ''Tech'', dataExperience = 3, dataBio = ''Backend developer'',
      dataSkills = SkillsString ''Python, SQL'', dataEmail = ''dev@example.org'', dataName = None\<rparr>"

definition downProvider :: provider where
  "downProvider = (\<lambda>k p. Inl (Error ''503 Service Unavailable''))"



text \<open>The placeholder generateCoverLetter creates, and the store after its update.\<close>

definition pendingLetter :: "coverLetterData \<Rightarrow> user \<Rightarrow> world \<Rightarrow> coverLetter" where
  "pendingLetter d u w =
     \<lparr>letterId = nextId w, letterUser = userId u, content = [],
      letterJobDescription = jobDescription d, letterCompanyName = companyName d,
      letterJobTitle = jobTitle d, status = ''pending'', createdAt = clock w\<rparr>"

text \<open>A request for a cover letter, and a world with the user and no letters.\<close>

definition techJob :: coverLetterData where
  "techJob = \<lparr>jobTitle = ''Engineer'', companyName = ''Acme'', jobDescription = ''Build things''\<rparr>"

definition userWorld :: "int \<Rightarrow> world" where
  "userWorld now = emptyWorld\<lparr>clock := now, userStore := [(''clerk1'', techUser)]\<rparr>"

text \<open>
  A server whose zone is UTC has no clock changes: its day starts at the last multiple
  of a day.
\<close>

definition dayMs :: int where
  "dayMs = 24 * 60 * 60 * 1000"

definition utcMidnight :: zone where
  "utcMidnight now = now - now mod dayMs"

text \<open>
  The count of the claim as stated: the subject's cover letters created within the
  trailing window that ends now.
\<close>

definition trailingCount :: "int \<Rightarrow> string \<Rightarrow> world \<Rightarrow> nat" where
  "trailingCount window subject w =
     length (filter (\<lambda>c. letterUser c = subject
                          \<and> clock w - window \<le> createdAt c \<and> createdAt c \<le> clock w)
               (coverLetterStore w))"

text \<open>
  One hour after midnight UTC of day 1, with ten cover letters of the user created one
  hour before that midnight; and noon of day 0 with ten letters, and with five
  assessments, of that morning.
\<close>

definition lettersAt :: "int \<Rightarrow> coverLetter list" where
  "lettersAt t =
     map (\<lambda>i. \<lparr>letterId = i, letterUser = ''u1'', content = ''Dear team'',
                letterJobDescription = ''Build things'', letterCompanyName = ''Acme'',
                letterJobTitle = ''Engineer'', status = ''completed'', createdAt = t\<rparr>)
       [0, 1, 2, 3, 4, 5, 6, 7, 8, 9]"

definition lateWorld :: world where
  "lateWorld = (userWorld 90000000)\<lparr>coverLetterStore := lettersAt 82800000, nextId := 10\<rparr>"

definition busyWorld :: world where
  "busyWorld =
     (userWorld 43200000)
       \<lparr>coverLetterStore := lettersAt 3600000, nextId := 10,
        assessmentStore :=
          replicate 5 \<lparr>assessmentUser = ''u1'', assessmentCreatedAt = 3600000\<rparr>\<rparr>"

section \<open>Properties of the retry executor\<close>

lemma retryTrace_step:
  "a < n \<Longrightarrow>
   retryTrace p base a n = Generate p # Sleep (base * (int a + 1)) # retryTrace p base (Suc a) n"
  by (simp add: retryTrace_def upt_conv_Cons)

lemma retryDelay_step:
  "a < n \<Longrightarrow> retryDelay base a n = base * (int a + 1) + retryDelay base (Suc a) n"
  by (simp add: retryDelay_def upt_conv_Cons)

lemma retryTrace_two:
  "retryTrace p base 0 2 = [Generate p, Sleep base, Generate p, Sleep (base * 2), Generate p]"
  by (simp add: retryTrace_def upt_conv_Cons)

lemma retryDelay_two: "retryDelay base 0 2 = base * 3"
  by (simp add: retryDelay_def upt_conv_Cons)

text \<open>
  A loop whose attempt fails at every call, each attempt being one provider call: from
  attempt \<open>a\<close> it makes the remaining \<open>n - a + 1\<close> calls, sleeps between them and ends
  with the final error around the message of the last attempt's error.
\<close>

lemma retryLoop_all_fail:
  assumes body:
    "\<And>w. body w = (Inl (err (calls w)), w\<lparr>calls := calls w + 1, trace := trace w @ [Generate p]\<rparr>)"
  shows "a \<le> n \<Longrightarrow>
    retryLoop body base final n a lastError w =
      (Inl (final (message (err (calls w + (n - a))))),
       w\<lparr>clock := clock w + retryDelay base a n, calls := calls w + (n - a) + 1,
         trace := trace w @ retryTrace p base a n\<rparr>)"
proof (induction "n - a" arbitrary: a lastError w)
  case 0
  then have an: "a = n" by simp
  show ?case
    apply (subst retryLoop.simps)
    apply (subst retryLoop.simps)
    apply (simp add: an body retryTrace_def retryDelay_def)
    done
next
  case (Suc d)
  then have lt: "a < n" and d: "d = n - Suc a" and le: "Suc a \<le> n" by simp_all
  have step: "n - a = Suc (n - Suc a)" using lt by simp
  have e: "calls w + n - a = Suc (calls w + n - Suc a)" using lt by arith
  show ?case
    apply (subst retryLoop.simps)
    using lt e
    apply (simp add: body Suc.hyps(1)[OF d le] sleep_def retryTrace_step retryDelay_step step)
    done
qed

text \<open>A loop whose first attempt succeeds returns its value after that one call.\<close>

lemma retryLoop_first_success:
  "body w = (Inr v, w1) \<Longrightarrow> retryLoop body base final n 0 lastError w = (Inr v, w1)"
  by (subst retryLoop.simps) simp

lemma geminiAttempt_fails:
  assumes "\<forall>k. isl (geminiText (gen k p))"
  shows "geminiAttempt gen p w =
           (Inl (projl (geminiText (gen (calls w) p))),
            w\<lparr>calls := calls w + 1, trace := trace w @ [Generate p]\<rparr>)"
  using assms[rule_format, of "calls w"]
  by (cases "geminiText (gen (calls w) p)") (simp_all add: geminiAttempt_def generateContent_def)

lemma insightsAttempt_fails:
  assumes "\<forall>k. isl (jobInsights parse ind (gen k p))"
  shows "insightsAttempt parse gen p ind w =
           (Inl (projl (jobInsights parse ind (gen (calls w) p))),
            w\<lparr>calls := calls w + 1, trace := trace w @ [Generate p]\<rparr>)"
  using assms[rule_format, of "calls w"]
  by (cases "jobInsights parse ind (gen (calls w) p)")
     (simp_all add: insightsAttempt_def generateContent_def)


lemma generateWithRetry_first_success:
  assumes "jobInsights parse ind (gen (calls w) p) = Inr v"
  shows "generateWithRetry parse gen p ind w =
           (Inr v, w\<lparr>calls := calls w + 1, trace := trace w @ [Generate p]\<rparr>)"
  unfolding generateWithRetry_def
  by (rule retryLoop_first_success) (simp add: insightsAttempt_def generateContent_def assms)

text \<open>
  C1. When every attempt fails, the retry executor with \<open>maxRetries = n\<close> calls the
  provider \<open>n + 1\<close> times, sleeps between consecutive attempts for the base delay
  (1000 ms in callGeminiWithRetry, 2000 ms in generateWithRetry) times the number of the
  attempt counted from 1, does not sleep after the last attempt, and fails with an error
  whose message ends with the message of the last attempt's error. generateWithRetry has
  \<open>n\<close> fixed to \<open>MAX_RETRIES\<close>.
\<close>

theorem retry_bound:
  "((\<forall>k. isl (geminiText (gen k p))) \<longrightarrow>
      callGeminiWithRetry gen p n w =
        (Inl (Error (''AI service unavailable after '' @ show_nat (n + 1) @ '' attempts: ''
                     @ message (projl (geminiText (gen (calls w + n) p))))),
         w\<lparr>clock := clock w + retryDelay 1000 0 n, calls := calls w + (n + 1),
           trace := trace w @ retryTrace p 1000 0 n\<rparr>))
   \<and> ((\<forall>k. isl (jobInsights parse ind (gen' k p'))) \<longrightarrow>
      generateWithRetry parse gen' p' ind w =
        (Inl (Error (''Failed after '' @ show_nat (MAX_RETRIES + 1) @ '' attempts: ''
                     @ message (projl (jobInsights parse ind (gen' (calls w + MAX_RETRIES) p'))))),
         w\<lparr>clock := clock w + retryDelay 2000 0 MAX_RETRIES,
           calls := calls w + (MAX_RETRIES + 1),
           trace := trace w @ retryTrace p' 2000 0 MAX_RETRIES\<rparr>))"
proof (intro conjI impI)
  assume f: "\<forall>k. isl (geminiText (gen k p))"
  show "callGeminiWithRetry gen p n w =
        (Inl (Error (''AI service unavailable after '' @ show_nat (n + 1) @ '' attempts: ''
                     @ message (projl (geminiText (gen (calls w + n) p))))),
         w\<lparr>clock := clock w + retryDelay 1000 0 n, calls := calls w + (n + 1),
           trace := trace w @ retryTrace p 1000 0 n\<rparr>)"
    unfolding callGeminiWithRetry_def
    by (subst retryLoop_all_fail[where err = "\<lambda>k. projl (geminiText (gen k p))" and p = p])
       (simp_all add: geminiAttempt_fails[of gen p, OF f])
next
  assume f: "\<forall>k. isl (jobInsights parse ind (gen' k p'))"
  show "generateWithRetry parse gen' p' ind w =
        (Inl (Error (''Failed after '' @ show_nat (MAX_RETRIES + 1) @ '' attempts: ''
                     @ message (projl (jobInsights parse ind (gen' (calls w + MAX_RETRIES) p'))))),
         w\<lparr>clock := clock w + retryDelay 2000 0 MAX_RETRIES,
           calls := calls w + (MAX_RETRIES + 1),
           trace := trace w @ retryTrace p' 2000 0 MAX_RETRIES\<rparr>)"
    unfolding generateWithRetry_def
    by (subst retryLoop_all_fail[where err = "\<lambda>k. projl (jobInsights parse ind (gen' k p'))" and p = p'])
       (simp_all add: insightsAttempt_fails[of parse ind gen' p', OF f])
qed

theorem retry_bound_witness:
  "callGeminiWithRetry (\<lambda>k p. Inl (Error ''quota'')) (ImprovePrompt ''summary'' ''text'' ''Tech'') 2 emptyWorld =
     (Inl (Error ''AI service unavailable after 3 attempts: quota''),
      emptyWorld\<lparr>clock := 3000, calls := 3,
        trace := [Generate (ImprovePrompt ''summary'' ''text'' ''Tech''), Sleep 1000,
                  Generate (ImprovePrompt ''summary'' ''text'' ''Tech''), Sleep 2000,
                  Generate (ImprovePrompt ''summary'' ''text'' ''Tech'')]\<rparr>)
   \<and> generateWithRetry (\<lambda>s. Inl ''Unexpected token'') (\<lambda>k p. Inr ''not json'') (JobPrompt ''Tech'') ''Tech'' emptyWorld =
     (Inl (Error ''Failed after 3 attempts: Unexpected token''),
      emptyWorld\<lparr>clock := 6000, calls := 3,
        trace := [Generate (JobPrompt ''Tech''), Sleep 2000, Generate (JobPrompt ''Tech''),
                  Sleep 4000, Generate (JobPrompt ''Tech'')]\<rparr>)"
  using retry_bound[of "\<lambda>k p. Inl (Error ''quota'')" "ImprovePrompt ''summary'' ''text'' ''Tech''"
                       2 emptyWorld "\<lambda>s. Inl ''Unexpected token''" "''Tech''"
                       "\<lambda>k p. Inr ''not json''" "JobPrompt ''Tech''"]
  by (simp add: geminiText_def jobInsights_def trim_def isSpace_def emptyWorld_def
                retryTrace_two retryDelay_two MAX_RETRIES_def digit_def)

section \<open>Properties of the insight validators\<close>

lemma checkRequired_obj:
  "checkRequired fs (JObj kvs) =
     (case find (\<lambda>f. f \<notin> fst ` set kvs) fs of
        Some f \<Rightarrow> Inl (Error (''Missing required field: '' @ f))
      | None \<Rightarrow> Inr ())"
  by (induction fs) (simp_all add: hasField_def)

lemma find_None_all: "find P xs = None \<longleftrightarrow> list_all (\<lambda>x. \<not> P x) xs"
  by (induction xs) auto

lemma checkRequired_obj_ok:
  "checkRequired requiredFields (JObj kvs) = Inr () \<longleftrightarrow> allPresent kvs"
proof -
  have "checkRequired requiredFields (JObj kvs) = Inr ()
        \<longleftrightarrow> find (\<lambda>f. f \<notin> fst ` set kvs) requiredFields = None"
    by (simp add: checkRequired_obj split: option.splits)
  then show ?thesis by (simp add: find_None_all allPresent_def)
qed

lemma checkRequired_not_obj:
  "\<forall>kvs. v \<noteq> JObj kvs \<Longrightarrow> checkRequired requiredFields v \<noteq> Inr ()"
  by (cases v) (simp_all add: requiredFields_def hasField_def)

lemma includes_demand: "arrayIncludes demandLevels x \<longleftrightarrow> x \<in> set demandLevels"
  by (cases x) (auto simp: arrayIncludes_def demandLevels_def sameValueZero_def)

lemma includes_outlook: "arrayIncludes marketOutlooks x \<longleftrightarrow> x \<in> set marketOutlooks"
  by (cases x) (auto simp: arrayIncludes_def marketOutlooks_def sameValueZero_def)

lemma getProp_obj: "getProp (JObj kvs) k = Inr (valueOf kvs k)"
  by (simp add: getProp_def valueOf_def split: option.splits)

lemma salaryOk_iff:
  "salaryOk kvs \<longleftrightarrow> \<not> (\<not> isArray (valueOf kvs ''salaryRanges'') \<or> length (elems (valueOf kvs ''salaryRanges'')) < 3)"
  by (auto simp add: salaryOk_def valueOf_def isArray_def elems_def split: option.splits jsval.splits)

lemma skillsOk_iff:
  "skillsOk kvs \<longleftrightarrow> \<not> (\<not> isArray (valueOf kvs ''topSkills'') \<or> length (elems (valueOf kvs ''topSkills'')) < 5)"
  by (auto simp add: skillsOk_def valueOf_def isArray_def elems_def split: option.splits jsval.splits)

lemma demandOk_iff: "demandOk kvs \<longleftrightarrow> arrayIncludes demandLevels (valueOf kvs ''demandLevel'')"
  unfolding includes_demand
  by (auto simp add: demandOk_def valueOf_def demandLevels_def split: option.splits)

lemma outlookOk_iff: "outlookOk kvs \<longleftrightarrow> arrayIncludes marketOutlooks (valueOf kvs ''marketOutlook'')"
  unfolding includes_outlook
  by (auto simp add: outlookOk_def valueOf_def marketOutlooks_def split: option.splits)

lemma checkShapes_obj:
  "checkShapes m1 m2 m3 m4 (JObj kvs) =
     (if \<not> salaryOk kvs then Inl (Error m1)
      else if \<not> skillsOk kvs then Inl (Error m2)
      else if \<not> demandOk kvs then Inl (Error m3)
      else if \<not> outlookOk kvs then Inl (Error m4)
      else Inr True)"
  by (simp add: checkShapes_def getProp_obj salaryOk_iff skillsOk_iff demandOk_iff outlookOk_iff)

lemma validateInsightsResponse_iff:
  "validateInsightsResponse v = Inr True \<longleftrightarrow> insightWellFormed v"
proof (cases "\<exists>kvs. v = JObj kvs")
  case True
  then obtain kvs where v: "v = JObj kvs" by blast
  show ?thesis
    using checkRequired_obj_ok[of kvs]
    by (cases "checkRequired requiredFields (JObj kvs)")
       (auto simp: v validateInsightsResponse_def insightWellFormed_def checkShapes_obj)
next
  case False
  then have "checkRequired requiredFields v \<noteq> Inr ()" by (simp add: checkRequired_not_obj)
  moreover have "\<not> insightWellFormed v" using False by (cases v) (simp_all add: insightWellFormed_def)
  ultimately show ?thesis
    by (cases "checkRequired requiredFields v") (auto simp: validateInsightsResponse_def)
qed

lemma validateInsights_iff:
  "validateInsights v ind = Inr True \<longleftrightarrow> insightWellFormed v"
proof (cases "\<exists>kvs. v = JObj kvs")
  case True
  then obtain kvs where v: "v = JObj kvs" by blast
  show ?thesis
    using checkRequired_obj_ok[of kvs]
    by (cases "checkRequired requiredFields (JObj kvs)")
       (auto simp: v validateInsights_def insightWellFormed_def checkShapes_obj typeofObject_def)
next
  case False
  then have "checkRequired requiredFields v \<noteq> Inr ()" by (simp add: checkRequired_not_obj)
  moreover have "\<not> insightWellFormed v" using False by (cases v) (simp_all add: insightWellFormed_def)
  ultimately show ?thesis
    by (cases "checkRequired requiredFields v") (auto simp: validateInsights_def)
qed

lemma checkRequired_missing:
  assumes "\<not> allPresent kvs"
  shows "\<exists>f \<in> set requiredFields. f \<notin> fst ` set kvs
           \<and> checkRequired requiredFields (JObj kvs) = Inl (Error (''Missing required field: '' @ f))"
proof -
  from assms have "find (\<lambda>f. f \<notin> fst ` set kvs) requiredFields \<noteq> None"
    by (simp add: find_None_all allPresent_def)
  then obtain f where f: "find (\<lambda>f. f \<notin> fst ` set kvs) requiredFields = Some f" by blast
  then have "f \<in> set requiredFields" "f \<notin> fst ` set kvs"
    by (auto simp: find_Some_iff)
  then show ?thesis using f by (auto simp: checkRequired_obj)
qed

text \<open>
  C7. Both insight validators accept a value exactly when it is an object that has all
  seven fields, whose \<open>salaryRanges\<close> is an array of at least 3 items, whose
  \<open>topSkills\<close> is an array of at least 5 items, whose \<open>demandLevel\<close> is HIGH, MEDIUM or
  LOW and whose \<open>marketOutlook\<close> is POSITIVE, NEUTRAL or NEGATIVE. An object they reject
  is rejected with an error that names a field which is missing or invalid; an array,
  which has none of the fields, with the error that names the first of them.
\<close>

theorem insight_validators:
  "(validateInsightsResponse v = Inr True \<longleftrightarrow> insightWellFormed v)
   \<and> (validateInsights v ind = Inr True \<longleftrightarrow> insightWellFormed v)
   \<and> validateInsightsResponse (JArr xs) = Inl (Error ''Missing required field: salaryRanges'')
   \<and> validateInsights (JArr xs) ind = Inl (Error ''Missing required field: salaryRanges'')
   \<and> (v = JObj kvs \<and> \<not> insightWellFormed v \<longrightarrow>
        (\<exists>f \<in> set requiredFields. f \<notin> fst ` set kvs
            \<and> validateInsightsResponse v = Inl (Error (''Missing required field: '' @ f))
            \<and> validateInsights v ind = Inl (Error (''Missing required field: '' @ f)))
        \<or> (\<not> salaryOk kvs
            \<and> validateInsightsResponse v
                = Inl (Error ''Invalid salaryRanges: must be array with at least 3 items'')
            \<and> validateInsights v ind
                = Inl (Error ''salaryRanges must be an array with at least 3 items''))
        \<or> (\<not> skillsOk kvs
            \<and> validateInsightsResponse v
                = Inl (Error ''Invalid topSkills: must be array with at least 5 items'')
            \<and> validateInsights v ind
                = Inl (Error ''topSkills must be an array with at least 5 items''))
        \<or> (\<not> demandOk kvs
            \<and> validateInsightsResponse v
                = Inl (Error ''Invalid demandLevel: must be HIGH, MEDIUM, or LOW'')
            \<and> validateInsights v ind = Inl (Error ''demandLevel must be HIGH, MEDIUM, or LOW''))
        \<or> (\<not> outlookOk kvs
            \<and> validateInsightsResponse v
                = Inl (Error ''Invalid marketOutlook: must be POSITIVE, NEUTRAL, or NEGATIVE'')
            \<and> validateInsights v ind
                = Inl (Error ''marketOutlook must be POSITIVE, NEUTRAL, or NEGATIVE'')))"
proof (intro conjI impI)
  show "validateInsightsResponse v = Inr True \<longleftrightarrow> insightWellFormed v"
    by (rule validateInsightsResponse_iff)
  show "validateInsights v ind = Inr True \<longleftrightarrow> insightWellFormed v"
    by (rule validateInsights_iff)
  show "validateInsightsResponse (JArr xs) = Inl (Error ''Missing required field: salaryRanges'')"
    by (simp add: validateInsightsResponse_def requiredFields_def hasField_def)
  show "validateInsights (JArr xs) ind = Inl (Error ''Missing required field: salaryRanges'')"
    by (simp add: validateInsights_def typeofObject_def requiredFields_def hasField_def)
next
  assume a: "v = JObj kvs \<and> \<not> insightWellFormed v"
  then have v: "v = JObj kvs" and bad: "\<not> insightWellFormed (JObj kvs)" by auto
  show "(\<exists>f \<in> set requiredFields. f \<notin> fst ` set kvs
            \<and> validateInsightsResponse v = Inl (Error (''Missing required field: '' @ f))
            \<and> validateInsights v ind = Inl (Error (''Missing required field: '' @ f)))
        \<or> (\<not> salaryOk kvs
            \<and> validateInsightsResponse v
                = Inl (Error ''Invalid salaryRanges: must be array with at least 3 items'')
            \<and> validateInsights v ind
                = Inl (Error ''salaryRanges must be an array with at least 3 items''))
        \<or> (\<not> skillsOk kvs
            \<and> validateInsightsResponse v
                = Inl (Error ''Invalid topSkills: must be array with at least 5 items'')
            \<and> validateInsights v ind
                = Inl (Error ''topSkills must be an array with at least 5 items''))
        \<or> (\<not> demandOk kvs
            \<and> validateInsightsResponse v
                = Inl (Error ''Invalid demandLevel: must be HIGH, MEDIUM, or LOW'')
            \<and> validateInsights v ind = Inl (Error ''demandLevel must be HIGH, MEDIUM, or LOW''))
        \<or> (\<not> outlookOk kvs
            \<and> validateInsightsResponse v
                = Inl (Error ''Invalid marketOutlook: must be POSITIVE, NEUTRAL, or NEGATIVE'')
            \<and> validateInsights v ind
                = Inl (Error ''marketOutlook must be POSITIVE, NEUTRAL, or NEGATIVE''))"
  proof (cases "allPresent kvs")
    case False
    from checkRequired_missing[OF False] obtain f where
      f: "f \<in> set requiredFields" "f \<notin> fst ` set kvs"
         "checkRequired requiredFields (JObj kvs) = Inl (Error (''Missing required field: '' @ f))"
      by blast
    have "validateInsightsResponse v = Inl (Error (''Missing required field: '' @ f))"
      by (simp add: v validateInsightsResponse_def f(3))
    moreover have "validateInsights v ind = Inl (Error (''Missing required field: '' @ f))"
      by (simp add: v validateInsights_def f(3) typeofObject_def)
    ultimately show ?thesis using f(1,2) by blast
  next
    case True
    then have r: "checkRequired requiredFields (JObj kvs) = Inr ()"
      by (simp add: checkRequired_obj_ok)
    from bad True have "\<not> salaryOk kvs \<or> \<not> skillsOk kvs \<or> \<not> demandOk kvs \<or> \<not> outlookOk kvs"
      by (simp add: insightWellFormed_def)
    then show ?thesis
      by (auto simp: v validateInsightsResponse_def validateInsights_def r checkShapes_obj
                     typeofObject_def)
  qed
qed

theorem insight_validators_witness:
  "insightWellFormed sampleInsights
   \<and> validateInsightsResponse sampleInsights = Inr True
   \<and> validateInsights sampleInsights ''Tech'' = Inr True
   \<and> \<not> insightWellFormed (JObj shortInsights)
   \<and> validateInsightsResponse (JObj shortInsights) \<noteq> Inr True
   \<and> (\<exists>m. validateInsights (JObj shortInsights) ''Tech'' = Inl (Error m))"
proof -
  have good: "insightWellFormed sampleInsights"
    by (simp add: insightWellFormed_def sampleInsights_def allPresent_def requiredFields_def
                  salaryOk_def skillsOk_def demandOk_def outlookOk_def)
  have bad: "\<not> insightWellFormed (JObj shortInsights)"
    by (simp add: insightWellFormed_def salaryOk_def shortInsights_def)
  note t1 = insight_validators[where v = sampleInsights and ind = "''Tech''"]
  note t2 = insight_validators[where v = "JObj shortInsights" and ind = "''Tech''"
              and kvs = shortInsights]
  from t1 good
  have 1: "validateInsightsResponse sampleInsights = Inr True"
    and 2: "validateInsights sampleInsights ''Tech'' = Inr True" by blast+
  from t2 bad have 3: "validateInsightsResponse (JObj shortInsights) \<noteq> Inr True" by blast
  from t2 bad have 4: "\<exists>m. validateInsights (JObj shortInsights) ''Tech'' = Inl (Error m)" by blast
  show ?thesis using good 1 2 bad 3 4 by blast
qed

section \<open>Properties of the quiz validator\<close>

lemma arrayIncludes_mem: "arrayIncludes xs x \<Longrightarrow> x \<in> set xs"
  by (cases x) (auto simp: arrayIncludes_def sameValueZero_def list_ex_iff)

lemma nonempty_string: "truthy v \<and> isString v \<longleftrightarrow> (\<exists>s. v = JStr s \<and> s \<noteq> [])"
  by (cases v) (simp_all add: isString_def)

lemma four_options: "isArray v \<and> length (elems v) = 4 \<longleftrightarrow> (\<exists>os. v = JArr os \<and> length os = 4)"
  by (cases v) (simp_all add: isArray_def elems_def)

lemma checkQuestion_not_obj: "\<forall>kvs. q \<noteq> JObj kvs \<Longrightarrow> checkQuestion i q \<noteq> Inr ()"
  by (cases q) (simp_all add: checkQuestion_def getProp_def)

lemma checkQuestion_obj:
  "checkQuestion i (JObj kvs) =
     (if \<not> truthy (valueOf kvs ''question'') \<or> \<not> isString (valueOf kvs ''question'')
      then Inl (questionError i ''missing or invalid question text'')
      else if \<not> isArray (valueOf kvs ''options'') \<or> length (elems (valueOf kvs ''options'')) \<noteq> 4
      then Inl (questionError i ''must have exactly 4 options'')
      else if \<not> truthy (valueOf kvs ''correctAnswer'')
              \<or> \<not> arrayIncludes (elems (valueOf kvs ''options'')) (valueOf kvs ''correctAnswer'')
      then Inl (questionError i ''correctAnswer must be one of the options'')
      else if \<not> truthy (valueOf kvs ''explanation'') \<or> \<not> isString (valueOf kvs ''explanation'')
      then Inl (questionError i ''missing or invalid explanation'')
      else Inr ())"
  unfolding checkQuestion_def getProp_obj by simp

lemma checkQuestion_sound:
  assumes "checkQuestion i q = Inr ()"
  shows "questionWellFormed q"
proof -
  obtain kvs where q: "q = JObj kvs" using assms checkQuestion_not_obj by blast
  note c = assms[unfolded q checkQuestion_obj]
  from c have 1: "truthy (valueOf kvs ''question'') \<and> isString (valueOf kvs ''question'')"
    by (auto split: if_splits)
  from c have 2: "isArray (valueOf kvs ''options'') \<and> length (elems (valueOf kvs ''options'')) = 4"
    by (auto split: if_splits)
  from c have 3: "truthy (valueOf kvs ''correctAnswer'')"
      "arrayIncludes (elems (valueOf kvs ''options'')) (valueOf kvs ''correctAnswer'')"
    by (auto split: if_splits)
  from c have 4: "truthy (valueOf kvs ''explanation'') \<and> isString (valueOf kvs ''explanation'')"
    by (auto split: if_splits)
  from 1 obtain s where s: "valueOf kvs ''question'' = JStr s" "s \<noteq> []" using nonempty_string by blast
  from 2 obtain os where os: "valueOf kvs ''options'' = JArr os" "length os = 4" using four_options by blast
  from 4 obtain e where e: "valueOf kvs ''explanation'' = JStr e" "e \<noteq> []" using nonempty_string by blast
  from 3 os have m: "valueOf kvs ''correctAnswer'' \<in> set os" "valueOf kvs ''correctAnswer'' \<noteq> JUndefined"
    by (auto simp: elems_def dest: arrayIncludes_mem)
  show ?thesis
    using s os e m
    by (simp add: q questionWellFormed_def valueOf_def split: option.splits)
qed

lemma checkQuestions_sound:
  "checkQuestions i qs = Inr () \<Longrightarrow> list_all questionWellFormed qs"
proof (induction qs arbitrary: i)
  case Nil
  then show ?case by simp
next
  case (Cons q qs)
  then show ?case
    by (cases "checkQuestion i q") (auto dest: checkQuestion_sound)
qed

text \<open>A quiz the validator accepts satisfies every clause of the schema.\<close>

lemma validateQuizResponse_sound:
  assumes "validateQuizResponse quiz = Inr True"
  shows "quizWellFormed quiz"
proof -
  have t: "truthy quiz" using assms by (auto simp: validateQuizResponse_def split: if_splits)
  have "\<exists>kvs. quiz = JObj kvs"
    using assms t by (cases quiz) (simp_all add: validateQuizResponse_def getProp_def isArray_def)
  then obtain kvs where q: "quiz = JObj kvs" by blast
  from assms have a: "isArray (valueOf kvs ''questions'')" "length (elems (valueOf kvs ''questions'')) = 10"
     "checkQuestions 0 (elems (valueOf kvs ''questions'')) = Inr ()"
    by (auto simp: q validateQuizResponse_def getProp_obj split: if_splits sum.splits)
  from a(1) obtain qs where qs: "valueOf kvs ''questions'' = JArr qs"
    by (cases "valueOf kvs ''questions''") (simp_all add: isArray_def)
  show ?thesis
    using a qs checkQuestions_sound[of 0 qs]
    by (simp add: q quizWellFormed_def valueOf_def elems_def split: option.splits)
qed

lemma checkQuestion_names_clause:
  assumes "q \<noteq> JNull" "q \<noteq> JUndefined"
  shows "checkQuestion i q = Inr () \<or> (\<exists>c \<in> set clauses. checkQuestion i q = Inl (questionError i c))"
proof -
  have g: "\<And>k. \<exists>x. getProp q k = Inr x" using assms by (cases q) (simp_all add: getProp_def split: option.splits)
  obtain a b c d where "getProp q ''question'' = Inr a" "getProp q ''options'' = Inr b"
    "getProp q ''correctAnswer'' = Inr c" "getProp q ''explanation'' = Inr d"
    using g by meson
  then show ?thesis
    by (simp add: checkQuestion_def clauses_def)
qed

text \<open>
  When no item is \<^verbatim>\<open>null\<close>, a failure of the loop is the error of the first
  offending question, with its index and the clause it breaks.
\<close>

lemma checkQuestions_names_question:
  assumes "JNull \<notin> set qs" "JUndefined \<notin> set qs"
  shows "checkQuestions i qs = Inr ()
     \<or> (\<exists>j < length qs. \<exists>c \<in> set clauses.
           checkQuestions i qs = Inl (questionError (i + j) c)
           \<and> checkQuestion (i + j) (qs ! j) = Inl (questionError (i + j) c))"
  using assms
proof (induction qs arbitrary: i)
  case Nil
  then show ?case by simp
next
  case (Cons q qs)
  then have q: "q \<noteq> JNull" "q \<noteq> JUndefined" by auto
  from checkQuestion_names_clause[OF q, of i]
  show ?case
  proof
    assume ok: "checkQuestion i q = Inr ()"
    from Cons.IH[of "i + 1"] Cons.prems
    have "checkQuestions (i + 1) qs = Inr ()
     \<or> (\<exists>j < length qs. \<exists>c \<in> set clauses.
           checkQuestions (i + 1) qs = Inl (questionError (i + 1 + j) c)
           \<and> checkQuestion (i + 1 + j) (qs ! j) = Inl (questionError (i + 1 + j) c))" by simp
    then show ?thesis
    proof
      assume "checkQuestions (i + 1) qs = Inr ()"
      then show ?thesis using ok by simp
    next
      assume "\<exists>j < length qs. \<exists>c \<in> set clauses.
           checkQuestions (i + 1) qs = Inl (questionError (i + 1 + j) c)
           \<and> checkQuestion (i + 1 + j) (qs ! j) = Inl (questionError (i + 1 + j) c)"
      then obtain j c where j: "j < length qs" "c \<in> set clauses"
        "checkQuestions (i + 1) qs = Inl (questionError (i + 1 + j) c)"
        "checkQuestion (i + 1 + j) (qs ! j) = Inl (questionError (i + 1 + j) c)" by blast
      have "Suc j < length (q # qs)" using j by simp
      moreover have "checkQuestions i (q # qs) = Inl (questionError (i + Suc j) c)" using ok j by simp
      moreover have "checkQuestion (i + Suc j) ((q # qs) ! Suc j) = Inl (questionError (i + Suc j) c)" using j by simp
      ultimately show ?thesis using j(2) by blast
    qed
  next
    assume "\<exists>c \<in> set clauses. checkQuestion i q = Inl (questionError i c)"
    then obtain c where c: "c \<in> set clauses" "checkQuestion i q = Inl (questionError i c)" by blast
    have "0 < length (q # qs)" by simp
    moreover have "checkQuestions i (q # qs) = Inl (questionError (i + 0) c)" using c by simp
    moreover have "checkQuestion (i + 0) ((q # qs) ! 0) = Inl (questionError (i + 0) c)" using c by simp
    ultimately show ?thesis using c(1) by blast
  qed
qed

text \<open>
  C6. A quiz of ten items whose third item is \<^verbatim>\<open>null\<close> is rejected by the TypeError of
  the property read, whose message has neither the index of the question nor the clause,
  where the claim has every violation fail with an error identifying both.
\<close>

theorem validateQuizResponse_null_question:
  "validateQuizResponse
     (JObj [(''questions'', JArr ([validQuestion, validQuestion, JNull] @ replicate 7 validQuestion))])
   = Inl (TypeError (''Cannot read properties of null (reading '' @ quote @ ''question'' @ quote @ '')''))"
proof -
  have v: "\<And>i. checkQuestion i validQuestion = Inr ()"
    by (simp add: checkQuestion_def validQuestion_def getProp_def isString_def isArray_def elems_def
                  arrayIncludes_def sameValueZero_def)
  have n: "\<And>i. checkQuestion i JNull = Inl (TypeError (''Cannot read properties of null (reading '' @ quote @ ''question'' @ quote @ '')''))"
    by (simp add: checkQuestion_def getProp_def)
  show ?thesis
    by (simp add: validateQuizResponse_def getProp_def isArray_def elems_def v n)
qed

section \<open>Properties of the response sanitizer\<close>

lemma take3_append_newline:
  "take 3 (t @ newline # x) = fence \<longleftrightarrow> take 3 t = fence"
proof (cases t)
  case Nil then show ?thesis by (simp add: fence_def newline_def)
next
  case (Cons a t1)
  show ?thesis
  proof (cases t1)
    case Nil then show ?thesis using Cons by (simp add: fence_def newline_def)
  next
    case (Cons b t2)
    note c2 = this
    show ?thesis
    proof (cases t2)
      case Nil then show ?thesis using c2 \<open>t = a # t1\<close> by (simp add: fence_def newline_def)
    next
      case (Cons c t3) then show ?thesis using c2 \<open>t = a # t1\<close> by simp
    qed
  qed
qed

lemma take3_append_space:
  assumes "list_all isSpace w"
  shows "take 3 (t @ w) = fence \<longleftrightarrow> take 3 t = fence"
proof -
  have sp: "\<And>c. isSpace c \<Longrightarrow> c \<noteq> CHR 0x60" by (auto simp: isSpace_def)
  show ?thesis
  proof (cases t)
    case Nil
    then show ?thesis using assms sp
      by (cases w) (auto simp: fence_def)
  next
    case (Cons a t1)
    show ?thesis
    proof (cases t1)
      case Nil then show ?thesis using Cons assms sp by (cases w) (auto simp: fence_def)
    next
      case (Cons b t2)
      note c2 = this
      show ?thesis
      proof (cases t2)
        case Nil then show ?thesis using c2 \<open>t = a # t1\<close> assms sp by (cases w) (auto simp: fence_def)
      next
        case (Cons c t3) then show ?thesis using c2 \<open>t = a # t1\<close> by simp
      qed
    qed
  qed
qed

lemma replaceAll_suffix:
  assumes none: "\<And>t. t \<noteq> [] \<Longrightarrow> m t = None \<Longrightarrow> m (t @ S) = None"
      and some: "\<And>t n. m t = Some n \<Longrightarrow>
                   0 < n \<and> n \<le> length t
                   \<and> (m (t @ S) = Some n
                       \<or> (n = length t
                           \<and> (\<exists>k \<le> length S. m (t @ S) = Some (n + k)
                                  \<and> list_all isSpace (replaceAll m (drop k S)))))"
      and base: "list_all isSpace (replaceAll m S)"
  shows "\<exists>w. list_all isSpace w \<and> replaceAll m (t @ S) = replaceAll m t @ w"
proof (induction "length t" arbitrary: t rule: less_induct)
  case less
  show ?case
  proof (cases t)
    case Nil
    then show ?thesis using base by simp
  next
    case (Cons c cs)
    show ?thesis
    proof (cases "m (c # cs)")
      case None
      with none[of "c # cs"] have n: "m ((c # cs) @ S) = None" by simp
      from less[of cs] Cons obtain w where "list_all isSpace w"
        "replaceAll m (cs @ S) = replaceAll m cs @ w" by auto
      then show ?thesis using None n Cons by auto
    next
      case (Some n)
      from some[OF Some] have n0: "0 < n" and nl: "n \<le> length (c # cs)"
        and alt: "m ((c # cs) @ S) = Some n
                  \<or> (n = length (c # cs)
                      \<and> (\<exists>k \<le> length S. m ((c # cs) @ S) = Some (n + k)
                             \<and> list_all isSpace (replaceAll m (drop k S))))" by blast+
      from alt show ?thesis
      proof
        assume same: "m ((c # cs) @ S) = Some n"
        have "length (drop n (c # cs)) < length t" using n0 Cons by simp
        from less[OF this] obtain w where w: "list_all isSpace w"
          "replaceAll m (drop n (c # cs) @ S) = replaceAll m (drop n (c # cs)) @ w" by auto
        have d: "drop n ((c # cs) @ S) = drop n (c # cs) @ S"
          using nl unfolding drop_append by simp
        have "replaceAll m ((c # cs) @ S) = replaceAll m (drop n ((c # cs) @ S))"
          using same n0 by simp
        moreover have "replaceAll m (c # cs) = replaceAll m (drop n (c # cs))"
          using Some n0 by simp
        ultimately show ?thesis using w d Cons by metis
      next
        assume "n = length (c # cs)
                \<and> (\<exists>k \<le> length S. m ((c # cs) @ S) = Some (n + k)
                       \<and> list_all isSpace (replaceAll m (drop k S)))"
        then obtain k where k: "n = length (c # cs)" "k \<le> length S"
          "m ((c # cs) @ S) = Some (n + k)" "list_all isSpace (replaceAll m (drop k S))" by blast
        have d: "drop (n + k) ((c # cs) @ S) = drop k S"
          using k(1) unfolding drop_append by simp
        have "replaceAll m ((c # cs) @ S) = replaceAll m (drop (n + k) ((c # cs) @ S))"
          using k(3) n0 by simp
        then have 1: "replaceAll m ((c # cs) @ S) = replaceAll m (drop k S)" using d by simp
        have "replaceAll m (c # cs) = replaceAll m (drop n (c # cs))" using Some n0 by simp
        then have 2: "replaceAll m (c # cs) = []" using k(1) by simp
        show ?thesis using 1 2 k(4) Cons by auto
      qed
    qed
  qed
qed

lemma space_not_tick: "isSpace c \<Longrightarrow> c \<noteq> CHR 0x60"
  by (auto simp: isSpace_def)

lemma spaces_no_tick: "list_all isSpace w \<Longrightarrow> CHR 0x60 \<notin> set w"
  by (auto simp: list_all_iff dest: space_not_tick)

lemma replaceAll_keeps_prefix:
  assumes m: "\<And>s. take 3 s \<noteq> fence \<Longrightarrow> m s = None"
      and xs: "CHR 0x60 \<notin> set xs"
  shows "replaceAll m (xs @ ys) = xs @ replaceAll m ys"
  using xs
proof (induction xs)
  case Nil
  then show ?case by simp
next
  case (Cons x xs)
  then have "take 3 ((x # xs) @ ys) \<noteq> fence" by (auto simp: fence_def)
  then have "m ((x # xs) @ ys) = None" by (rule m)
  then show ?case using Cons by simp
qed

lemma replaceAll_spaces:
  assumes "\<And>s. take 3 s \<noteq> fence \<Longrightarrow> m s = None" and "list_all isSpace w"
  shows "replaceAll m w = w"
  using replaceAll_keeps_prefix[of m w "[]", OF assms(1) spaces_no_tick[OF assms(2)]] by simp

lemma fenceJsonNl_None: "take 3 s \<noteq> fence \<Longrightarrow> fenceJsonNl s = None"
  by (simp add: fenceJsonNl_def)

lemma fenceNl_None: "take 3 s \<noteq> fence \<Longrightarrow> fenceNl s = None"
  by (simp add: fenceNl_def)

lemma fenceOnly_None: "take 3 s \<noteq> fence \<Longrightarrow> fenceOnly s = None"
  by (simp add: fenceOnly_def)

lemma opening_fence:
  "replaceAll fenceJsonNl (fence @ ''json'' @ [newline] @ rest) = replaceAll fenceJsonNl rest"
  by (simp add: fence_def fenceJsonNl_def optNewline_def)

lemma take4_append_newline:
  "take 4 (r @ newline # x) = ''json'' \<longleftrightarrow> take 4 r = ''json''"
proof (cases "4 \<le> length r")
  case True
  then show ?thesis by simp
next
  case False
  then have l: "length r < 4" by simp
  have "take 4 r \<noteq> ''json''"
  proof
    assume "take 4 r = ''json''"
    then have "length (take 4 r) = 4" by simp
    then show False using l by simp
  qed
  moreover have "take 4 (r @ newline # x) \<noteq> ''json''"
  proof
    assume a: "take 4 (r @ newline # x) = ''json''"
    obtain k where k: "4 - length r = Suc k" using l by (cases "4 - length r") auto
    have "take 4 (r @ newline # x) = r @ take (4 - length r) (newline # x)" using l by simp
    then have "take 4 (r @ newline # x) = r @ newline # take k x" using k by simp
    then have "newline \<in> set (take 4 (r @ newline # x))" by simp
    then have "newline \<in> set ''json''" unfolding a .
    then show False by (simp add: newline_def)
  qed
  ultimately show ?thesis by simp
qed

lemma optNewline_append: "r \<noteq> [] \<Longrightarrow> optNewline (r @ x) = optNewline r"
  by (cases r) (simp_all add: optNewline_def)

lemma optNewline_le: "optNewline r \<le> length r"
  by (cases r) (simp_all add: optNewline_def)

lemma spaces_not_json: "list_all isSpace w \<Longrightarrow> take 4 w \<noteq> ''json''"
  by (cases w) (auto simp: isSpace_def)

lemma length_fence: "length fence = 3"
  by (simp add: fence_def)

lemma replaceAll_match:
  "s \<noteq> [] \<Longrightarrow> m s = Some n \<Longrightarrow> 0 < n \<Longrightarrow> replaceAll m s = replaceAll m (drop n s)"
  by (cases s) simp_all

lemma closing_fence:
  assumes "list_all isSpace after"
  shows "replaceAll fenceJsonNl (fence @ after) = drop (optNewline after) after"
proof -
  have f: "fenceJsonNl (fence @ after) = Some (3 + optNewline after)"
    using spaces_not_json[OF assms] by (simp add: fenceJsonNl_def fence_def)
  have "fence @ after \<noteq> []" by (simp add: fence_def)
  then have "replaceAll fenceJsonNl (fence @ after)
             = replaceAll fenceJsonNl (drop (3 + optNewline after) (fence @ after))"
    using f by (intro replaceAll_match) simp_all
  also have "drop (3 + optNewline after) (fence @ after) = drop (optNewline after) after"
    using length_fence by simp
  also have "replaceAll fenceJsonNl (drop (optNewline after) after) = drop (optNewline after) after"
    using assms by (intro replaceAll_spaces fenceJsonNl_None) (auto simp: list_all_iff dest: in_set_dropD)
  finally show ?thesis .
qed

lemma spaces_drop: "list_all isSpace w \<Longrightarrow> list_all isSpace (drop k w)"
  by (auto simp: list_all_iff dest: in_set_dropD)

lemma isSpace_newline: "isSpace newline"
  by (simp add: isSpace_def newline_def)

lemma fenceJsonNl_Some:
  assumes "fenceJsonNl t = Some n"
  shows "take 3 t = fence"
    and "n = 3 + (if take 4 (drop 3 t) = ''json'' then 4 else 0)
               + optNewline (drop (if take 4 (drop 3 t) = ''json'' then 4 else 0) (drop 3 t))"
  using assms by (auto simp: fenceJsonNl_def Let_def split: if_splits)

lemma pass1_suffix:
  assumes sp: "list_all isSpace after"
  shows "\<exists>w. list_all isSpace w
            \<and> replaceAll fenceJsonNl (t @ newline # fence @ after) = replaceAll fenceJsonNl t @ w"
proof (rule replaceAll_suffix)
  fix t :: string
  assume "t \<noteq> []" "fenceJsonNl t = None"
  then have "take 3 t \<noteq> fence" by (auto simp: fenceJsonNl_def Let_def split: if_splits)
  then have "take 3 (t @ newline # fence @ after) \<noteq> fence"
    by (simp only: take3_append_newline) simp
  then show "fenceJsonNl (t @ newline # fence @ after) = None" by (rule fenceJsonNl_None)
next
  show "list_all isSpace (replaceAll fenceJsonNl (newline # fence @ after))"
  proof -
    have "take 3 (newline # fence @ after) \<noteq> fence" by (simp add: fence_def newline_def)
    then have "fenceJsonNl (newline # fence @ after) = None" by (rule fenceJsonNl_None)
    then have "replaceAll fenceJsonNl (newline # fence @ after)
               = newline # replaceAll fenceJsonNl (fence @ after)" by simp
    then show ?thesis using closing_fence[OF sp] spaces_drop[OF sp] isSpace_newline by simp
  qed
next
  fix t :: string and n
  let ?S = "newline # fence @ after"
  assume m: "fenceJsonNl t = Some n"
  define r where "r = drop 3 t"
  define a :: nat where "a = (if take 4 r = ''json'' then 4 else 0)"
  have t3: "take 3 t = fence" using fenceJsonNl_Some(1)[OF m] .
  have n: "n = 3 + a + optNewline (drop a r)"
    using fenceJsonNl_Some(2)[OF m] by (simp add: r_def a_def)
  have t: "t = fence @ r" unfolding r_def using t3 append_take_drop_id[of 3 t] by simp
  have lt: "length t = 3 + length r" using t length_fence by simp
  have ar: "a \<le> length r"
  proof (cases "take 4 r = ''json''")
    case True
    have "length (take 4 r) = length ''json''" by (simp only: True)
    then have "4 \<le> length r" by simp
    then show ?thesis by (simp add: a_def)
  next
    case False then show ?thesis by (simp add: a_def)
  qed
  have nle: "n \<le> length t" using optNewline_le[of "drop a r"] ar by (simp add: n lt)
  have t3': "take 3 (t @ ?S) = fence" using t3 by (simp only: take3_append_newline)
  have d3: "drop 3 (t @ ?S) = r @ ?S" using t length_fence by simp
  have a': "(if take 4 (r @ ?S) = ''json'' then 4 else 0) = a"
    by (simp only: a_def take4_append_newline)
  have da: "drop a (r @ ?S) = drop a r @ ?S" using ar by simp
  have full: "fenceJsonNl (t @ ?S) = Some (3 + a + optNewline (drop a r @ ?S))"
  proof -
    have "fenceJsonNl (t @ ?S)
          = Some (3 + (if take 4 (drop 3 (t @ ?S)) = ''json'' then 4 else 0)
                  + optNewline (drop (if take 4 (drop 3 (t @ ?S)) = ''json'' then 4 else 0)
                                  (drop 3 (t @ ?S))))"
      by (simp only: fenceJsonNl_def Let_def t3' if_True refl)
    then show ?thesis by (simp only: d3 a' da)
  qed
  show "0 < n \<and> n \<le> length t
        \<and> (fenceJsonNl (t @ ?S) = Some n
            \<or> (n = length t
                \<and> (\<exists>k \<le> length ?S. fenceJsonNl (t @ ?S) = Some (n + k)
                       \<and> list_all isSpace (replaceAll fenceJsonNl (drop k ?S)))))"
  proof (cases "drop a r = []")
    case False
    then have "fenceJsonNl (t @ ?S) = Some n" using full by (simp add: n optNewline_append)
    then show ?thesis using nle n by simp
  next
    case True
    then have n': "n = length t" using ar by (simp add: n lt optNewline_def)
    have "fenceJsonNl (t @ ?S) = Some (n + 1)"
      using full True by (simp add: n optNewline_def)
    moreover have "list_all isSpace (replaceAll fenceJsonNl (drop 1 ?S))"
      using closing_fence[OF sp] spaces_drop[OF sp] by simp
    moreover have "(1::nat) \<le> length ?S" by simp
    ultimately have "\<exists>k \<le> length ?S. fenceJsonNl (t @ ?S) = Some (n + k)
                       \<and> list_all isSpace (replaceAll fenceJsonNl (drop k ?S))" by blast
    moreover have "0 < n" using n by simp
    ultimately show ?thesis using n' by simp
  qed
qed

lemma pass2_suffix_nl:
  assumes sp: "list_all isSpace w"
  shows "\<exists>w'. list_all isSpace w' \<and> replaceAll fenceNl (u @ w) = replaceAll fenceNl u @ w'"
proof (rule replaceAll_suffix)
  fix t :: string
  assume "t \<noteq> []" "fenceNl t = None"
  then have "take 3 t \<noteq> fence" by (auto simp: fenceNl_def split: if_splits)
  then have "take 3 (t @ w) \<noteq> fence" by (simp only: take3_append_space[OF sp]) simp
  then show "fenceNl (t @ w) = None" by (rule fenceNl_None)
next
  show "list_all isSpace (replaceAll fenceNl w)"
    using replaceAll_spaces[of fenceNl w, OF fenceNl_None sp] sp by simp
next
  fix t :: string and n
  assume m: "fenceNl t = Some n"
  define r where "r = drop 3 t"
  have t3: "take 3 t = fence" using m by (auto simp: fenceNl_def split: if_splits)
  have n: "n = 3 + optNewline r" using m t3 by (simp add: fenceNl_def r_def)
  have t: "t = fence @ r" unfolding r_def using t3 append_take_drop_id[of 3 t] by simp
  have lt: "length t = 3 + length r" using t length_fence by simp
  have nle: "n \<le> length t" using optNewline_le[of r] by (simp add: n lt)
  have t3': "take 3 (t @ w) = fence" using t3 by (simp only: take3_append_space[OF sp])
  have d3: "drop 3 (t @ w) = r @ w" using t length_fence by simp
  have full: "fenceNl (t @ w) = Some (3 + optNewline (r @ w))"
    by (simp only: fenceNl_def t3' if_True d3 refl)
  show "0 < n \<and> n \<le> length t
        \<and> (fenceNl (t @ w) = Some n
            \<or> (n = length t
                \<and> (\<exists>k \<le> length w. fenceNl (t @ w) = Some (n + k)
                       \<and> list_all isSpace (replaceAll fenceNl (drop k w)))))"
  proof (cases "r = []")
    case False
    then have "fenceNl (t @ w) = Some n" using full by (simp add: n optNewline_append)
    then show ?thesis using nle n by simp
  next
    case True
    then have n': "n = length t" by (simp add: n lt optNewline_def)
    have "fenceNl (t @ w) = Some (n + optNewline w)" using full True by (simp add: n optNewline_def)
    moreover have "list_all isSpace (replaceAll fenceNl (drop (optNewline w) w))"
      using replaceAll_spaces[of fenceNl "drop (optNewline w) w", OF fenceNl_None spaces_drop[OF sp]]
            spaces_drop[OF sp] by simp
    ultimately have "\<exists>k \<le> length w. fenceNl (t @ w) = Some (n + k)
                       \<and> list_all isSpace (replaceAll fenceNl (drop k w))"
      using optNewline_le[of w] by blast
    moreover have "0 < n" using n by simp
    ultimately show ?thesis using n' by simp
  qed
qed

lemma pass2_suffix_only:
  assumes sp: "list_all isSpace w"
  shows "\<exists>w'. list_all isSpace w' \<and> replaceAll fenceOnly (u @ w) = replaceAll fenceOnly u @ w'"
proof (rule replaceAll_suffix)
  fix t :: string
  assume "t \<noteq> []" "fenceOnly t = None"
  then have "take 3 t \<noteq> fence" by (auto simp: fenceOnly_def split: if_splits)
  then have "take 3 (t @ w) \<noteq> fence" by (simp only: take3_append_space[OF sp]) simp
  then show "fenceOnly (t @ w) = None" by (rule fenceOnly_None)
next
  show "list_all isSpace (replaceAll fenceOnly w)"
    using replaceAll_spaces[of fenceOnly w, OF fenceOnly_None sp] sp by simp
next
  fix t :: string and n
  assume m: "fenceOnly t = Some n"
  have t3: "take 3 t = fence" and n: "n = 3" using m by (auto simp: fenceOnly_def split: if_splits)
  have "length (take 3 t) = 3" using t3 length_fence by simp
  then have nle: "n \<le> length t" using n by simp
  have "take 3 (t @ w) = fence" using t3 by (simp only: take3_append_space[OF sp])
  then have "fenceOnly (t @ w) = Some n" by (simp add: fenceOnly_def n)
  then show "0 < n \<and> n \<le> length t
        \<and> (fenceOnly (t @ w) = Some n
            \<or> (n = length t
                \<and> (\<exists>k \<le> length w. fenceOnly (t @ w) = Some (n + k)
                       \<and> list_all isSpace (replaceAll fenceOnly (drop k w)))))"
    using nle n by simp
qed

lemma trim_spaces_prefix: "list_all isSpace w \<Longrightarrow> trim (w @ x) = trim x"
  by (simp add: trim_def list_all_iff)

lemma trim_spaces_suffix:
  assumes "list_all isSpace w"
  shows "trim (x @ w) = trim x"
proof (cases "\<exists>c \<in> set x. \<not> isSpace c")
  case True
  then have "dropWhile isSpace (x @ w) = dropWhile isSpace x @ w"
    by auto
  moreover have "dropWhile isSpace (rev w @ y) = dropWhile isSpace y" for y
    using assms by (intro dropWhile_append2) (simp add: list_all_iff)
  ultimately show ?thesis by (simp add: trim_def)
next
  case False
  then have e: "dropWhile isSpace (x @ w) = []" "dropWhile isSpace x = []"
    using assms by (auto simp: list_all_iff)
  show ?thesis by (simp only: trim_def e)
qed

lemma replaceAll_no_fence:
  assumes m: "\<And>s. take 3 s \<noteq> fence \<Longrightarrow> m s = None"
  shows "\<not> containsFence t \<Longrightarrow> replaceAll m t = t"
proof (induction t)
  case Nil
  then show ?case by simp
next
  case (Cons c cs)
  then have "m (c # cs) = None" by (intro m) simp
  then show ?case using Cons by simp
qed

lemma cleaning_of_fenced:
  assumes m2: "\<And>s. take 3 s \<noteq> fence \<Longrightarrow> m2 s = None"
      and suffix2: "\<And>u w. list_all isSpace w \<Longrightarrow>
                      \<exists>w'. list_all isSpace w' \<and> replaceAll m2 (u @ w) = replaceAll m2 u @ w'"
      and b: "list_all isSpace before" and a: "list_all isSpace after"
  shows "trim (replaceAll m2 (replaceAll fenceJsonNl (fenced before t after)))
         = trim (replaceAll m2 (replaceAll fenceJsonNl t))"
proof -
  from pass1_suffix[OF a, of t] obtain w where w: "list_all isSpace w"
    "replaceAll fenceJsonNl (t @ newline # fence @ after) = replaceAll fenceJsonNl t @ w" by blast
  have "replaceAll fenceJsonNl (fenced before t after)
        = before @ replaceAll fenceJsonNl (fence @ ''json'' @ [newline] @ (t @ newline # fence @ after))"
    unfolding fenced_def
    using replaceAll_keeps_prefix[of fenceJsonNl before, OF fenceJsonNl_None spaces_no_tick[OF b]]
    by simp
  then have 1: "replaceAll fenceJsonNl (fenced before t after) = before @ replaceAll fenceJsonNl t @ w"
    by (simp only: opening_fence w(2))
  from suffix2[OF w(1), of "replaceAll fenceJsonNl t"] obtain w' where w': "list_all isSpace w'"
    "replaceAll m2 (replaceAll fenceJsonNl t @ w) = replaceAll m2 (replaceAll fenceJsonNl t) @ w'"
    by blast
  have "replaceAll m2 (before @ replaceAll fenceJsonNl t @ w)
        = before @ replaceAll m2 (replaceAll fenceJsonNl t @ w)"
    using replaceAll_keeps_prefix[of m2 before, OF m2 spaces_no_tick[OF b]] by simp
  then have "replaceAll m2 (replaceAll fenceJsonNl (fenced before t after))
             = before @ (replaceAll m2 (replaceAll fenceJsonNl t) @ w')"
    by (simp only: 1 w'(2))
  then show ?thesis
    by (simp only: trim_spaces_prefix[OF b] trim_spaces_suffix[OF w'(1)])
qed

text \<open>
  C9 (amended). A text on its own lines inside a json-tagged fence, with white space
  around the fence, is cleaned to the same text as the unfenced text is, by both
  cleanings; so any parser gives the same on both. The cleaning drops every fence, also
  one inside the text: the text comes out unchanged, but for the trimming, when it holds
  no fence itself.
\<close>

theorem sanitizer_fenced:
  "list_all isSpace before \<and> list_all isSpace after \<longrightarrow>
     cleanText (fenced before t after) = cleanText t
     \<and> cleanTextJob (fenced before t after) = cleanTextJob t
     \<and> (parse :: parser) (cleanText (fenced before t after)) = parse (cleanText t)
     \<and> (\<not> containsFence t \<longrightarrow>
          cleanText (fenced before t after) = trim t
          \<and> cleanTextJob (fenced before t after) = trim t)"
proof (intro impI)
  assume "list_all isSpace before \<and> list_all isSpace after"
  then have b: "list_all isSpace before" and a: "list_all isSpace after" by simp_all
  have 1: "cleanText (fenced before t after) = cleanText t"
    unfolding cleanText_def
    by (rule cleaning_of_fenced[OF fenceNl_None pass2_suffix_nl b a])
  have 2: "cleanTextJob (fenced before t after) = cleanTextJob t"
    unfolding cleanTextJob_def
    by (rule cleaning_of_fenced[OF fenceOnly_None pass2_suffix_only b a])
  have 3: "cleanText t = trim t" "cleanTextJob t = trim t" if "\<not> containsFence t"
    using that
    by (simp_all add: cleanText_def cleanTextJob_def
          replaceAll_no_fence[OF fenceJsonNl_None] replaceAll_no_fence[OF fenceNl_None]
          replaceAll_no_fence[OF fenceOnly_None])
  show "cleanText (fenced before t after) = cleanText t
     \<and> cleanTextJob (fenced before t after) = cleanTextJob t
     \<and> parse (cleanText (fenced before t after)) = parse (cleanText t)
     \<and> (\<not> containsFence t \<longrightarrow>
          cleanText (fenced before t after) = trim t
          \<and> cleanTextJob (fenced before t after) = trim t)"
    using 1 2 3 by simp
qed

theorem sanitizer_fenced_witness:
  "cleanText (fenced '' '' ''{}'' [newline]) = ''{}''
   \<and> cleanTextJob (fenced '' '' ''{}'' [newline]) = ''{}''"
proof -
  have h: "list_all isSpace '' '' \<and> list_all isSpace [newline]"
    by (simp add: isSpace_def newline_def)
  have n: "\<not> containsFence ''{}''" by (simp add: fence_def)
  have t: "trim ''{}'' = ''{}''" by (simp add: trim_def isSpace_def)
  from sanitizer_fenced[of "'' ''" "[newline]" "''{}''" "\<lambda>s. Inr JNull", THEN mp, OF h] n
  have "cleanText (fenced '' '' ''{}'' [newline]) = trim ''{}''
        \<and> cleanTextJob (fenced '' '' ''{}'' [newline]) = trim ''{}''" by blast
  then show ?thesis by (simp only: t)
qed

text \<open>
  C9 as stated fails on a text that holds a fence: the JSON string of three backticks,
  fenced, is cleaned to the empty JSON string, which is not the enclosed text.
\<close>

theorem sanitizer_alters_content:
  "cleanText (fenced [] quotedFence []) = [CHR 0x22, CHR 0x22]
   \<and> cleanText (fenced [] quotedFence []) \<noteq> quotedFence"
  by (simp add: cleanText_def fenced_def quotedFence_def fence_def newline_def fenceJsonNl_def
                fenceNl_def optNewline_def trim_def isSpace_def)

section \<open>Properties of the insight cache manager\<close>

text \<open>
  C3. A record is stale exactly when the current time is after its \<open>nextUpdate\<close>, and
  fresh when it is at or before it. For a signed-in user with an industry whose record
  is fresh, the getter returns that record and leaves the world as it is: no provider
  call, no write.
\<close>

theorem fresh_record_served:
  "(shouldRefreshInsights (Some r) now \<longleftrightarrow> now > nextUpdate r)
   \<and> (\<not> shouldRefreshInsights (Some r) now \<longleftrightarrow> now \<le> nextUpdate r)
   \<and> (map_of (userStore w) cid = Some u \<and> userIndustry u = Some ind \<and> trim ind \<noteq> []
        \<and> map_of (insightStore w) ind = Some r \<and> clock w \<le> nextUpdate r \<longrightarrow>
        getIndustryInsights parse gen (Some cid) w = (Inr r, w)
        \<and> calls (snd (getIndustryInsights parse gen (Some cid) w)) = calls w)"
  by (auto simp: shouldRefreshInsights_def getIndustryInsights_def getAuthenticatedUser_def
                 industryInsight_def)

theorem fresh_record_served_witness:
  "\<not> shouldRefreshInsights (Some (techRecord 0 604800000)) 604800000
   \<and> shouldRefreshInsights (Some (techRecord 0 604800000)) 604800001
   \<and> getIndustryInsights okParser okProvider (Some ''clerk1'') (techWorld 604800000 (techRecord 0 604800000))
       = (Inr (techRecord 0 604800000), techWorld 604800000 (techRecord 0 604800000))"
proof -
  let ?r = "techRecord 0 604800000"
  let ?w = "techWorld 604800000 ?r"
  have h: "map_of (userStore ?w) ''clerk1'' = Some techUser \<and> userIndustry techUser = Some ''Tech''
           \<and> trim ''Tech'' \<noteq> [] \<and> map_of (insightStore ?w) ''Tech'' = Some ?r
           \<and> clock ?w \<le> nextUpdate ?r"
    by (simp add: techWorld_def techUser_def techRecord_def emptyWorld_def trim_def isSpace_def)
  have n: "nextUpdate ?r = 604800000" by (simp add: techRecord_def)
  note t = fresh_record_served[of ?r "604800000" ?w "''clerk1''" techUser "''Tech''" okParser okProvider]
  note t' = fresh_record_served[of ?r "604800001"]
  from t h have 1: "getIndustryInsights okParser okProvider (Some ''clerk1'') ?w = (Inr ?r, ?w)" by blast
  from t n have 2: "\<not> shouldRefreshInsights (Some ?r) 604800000" by simp
  from t' n have 3: "shouldRefreshInsights (Some ?r) 604800001" by simp
  show ?thesis using 1 2 3 by blast
qed

lemma generateAIInsights_result:
  "trim ind \<noteq> [] \<Longrightarrow>
   generateAIInsights parse gen (Some ind) w =
     (insightsCatch (parsedInsights parse (gen (calls w) (InsightsPrompt ind))),
      w\<lparr>calls := calls w + 1, trace := trace w @ [Generate (InsightsPrompt ind)]\<rparr>)"
  by (simp add: generateAIInsights_def generateContent_def)

lemma insightsCatch_fails: "isl r \<Longrightarrow> \<exists>m. insightsCatch r = Inl (Error m)"
  by (cases r) (simp_all add: insightsCatch_def)

text \<open>
  The explicit refresh of a record that is there: the seven fields and \<open>nextUpdate\<close> are
  written, \<open>lastUpdated\<close> is not.
\<close>

lemma refresh_existing:
  assumes "map_of (userStore w) cid = Some u" "userIndustry u = Some ind" "trim ind \<noteq> []"
      and "map_of (insightStore w) ind = Some r" "industry r = ind"
      and "parsedInsights parse (gen (calls w) (InsightsPrompt ind)) = Inr insights"
  shows "refreshIndustryInsights parse gen (Some cid) w =
           (Inr ((writeInsightFields insights r)\<lparr>nextUpdate := clock w + cacheMs\<rparr>),
            w\<lparr>calls := calls w + 1,
              trace := trace w @ [Generate (InsightsPrompt ind), UpdateInsight ind],
              insightStore :=
                AList.update ind ((writeInsightFields insights r)\<lparr>nextUpdate := clock w + cacheMs\<rparr>)
                  (insightStore w)\<rparr>)"
  using assms
  by (simp add: refreshIndustryInsights_def getAuthenticatedUser_def industryInsight_def
                regenerate_def generateAIInsights_result insightsCatch_def storeInsights_def
                updateInsight_def getNextUpdateDate_def cacheMs_def)

lemma refresh_existing_lastUpdated:
  "lastUpdated ((writeInsightFields insights r)\<lparr>nextUpdate := t\<rparr>) = lastUpdated r"
  by (simp add: writeInsightFields_def)

text \<open>The write of the weekly job sets both \<open>lastUpdated\<close> and \<open>nextUpdate\<close>.\<close>

lemma refreshOne_writes_both:
  assumes "jobInsights parse ind (gen (calls w) (JobPrompt ind)) = Inr insights"
      and "map_of (insightStore w) ind = Some r"
  shows "map_of (insightStore (snd (refreshOne parse gen ind (st, w)))) ind
           = Some ((writeInsightFields insights r)
                     \<lparr>lastUpdated := clock w, nextUpdate := clock w + cacheMs\<rparr>)"
  using assms
  by (simp add: refreshOne_def generateWithRetry_first_success upsertInsight_def cacheMs_def
                update_Some_unfold)

lemma sample_accepted: "validateInsightsResponse sampleInsights = Inr True"
  unfolding validateInsightsResponse_iff
  by (simp add: insightWellFormed_def sampleInsights_def allPresent_def requiredFields_def
                salaryOk_def skillsOk_def demandOk_def outlookOk_def)

lemma cleanText_ok: "cleanText ''ok'' = ''ok''"
  by (simp add: cleanText_def fenceJsonNl_def fenceNl_def fence_def trim_def isSpace_def)

lemma ok_generation: "parsedInsights okParser (okProvider k p) = Inr sampleInsights"
  by (simp add: parsedInsights_def okProvider_def okParser_def cleanText_ok sample_accepted)

text \<open>
  C4. An explicit refresh at day 8 of a record written at time 0 and due at day 7
  succeeds and stores \<open>nextUpdate\<close> as day 15, the current time plus 7 days, but leaves
  \<open>lastUpdated\<close> at 0, where the claim has it become the current time.
\<close>

theorem refresh_leaves_lastUpdated:
  "clock (techWorld 691200000 (techRecord 0 604800000)) = 691200000
   \<and> \<not> isl (fst (refreshIndustryInsights okParser okProvider (Some ''clerk1'')
                     (techWorld 691200000 (techRecord 0 604800000))))
   \<and> map_option (\<lambda>r. (lastUpdated r, nextUpdate r))
        (map_of (insightStore (snd (refreshIndustryInsights okParser okProvider (Some ''clerk1'')
                                      (techWorld 691200000 (techRecord 0 604800000))))) ''Tech'')
       = Some (0, 1296000000)"
proof -
  let ?r = "techRecord 0 604800000"
  let ?w = "techWorld 691200000 ?r"
  have r: "refreshIndustryInsights okParser okProvider (Some ''clerk1'') ?w =
           (Inr ((writeInsightFields sampleInsights ?r)\<lparr>nextUpdate := clock ?w + cacheMs\<rparr>),
            ?w\<lparr>calls := calls ?w + 1,
              trace := trace ?w @ [Generate (InsightsPrompt ''Tech''), UpdateInsight ''Tech''],
              insightStore :=
                AList.update ''Tech'' ((writeInsightFields sampleInsights ?r)\<lparr>nextUpdate := clock ?w + cacheMs\<rparr>)
                  (insightStore ?w)\<rparr>)"
    by (rule refresh_existing[where u = techUser])
       (simp_all add: techWorld_def techUser_def techRecord_def emptyWorld_def placeholder_def
                      trim_def isSpace_def ok_generation)
  show ?thesis
    unfolding r
    by (simp add: techWorld_def techRecord_def emptyWorld_def placeholder_def
                  writeInsightFields_def cacheMs_def CACHE_DURATION_DAYS_def)
qed

lemma generateAIInsights_blank:
  "trim ind = [] \<Longrightarrow> \<exists>m. generateAIInsights parse gen (Some ind) w = (Inl (Error m), w)"
  by (simp add: generateAIInsights_def)

text \<open>
  Profile setup for an industry without a record, when the generation fails: the
  placeholder is created first, then the generation is tried (with one provider call
  unless the industry is blank), and the step succeeds with the placeholder in place.
\<close>

lemma ensureInsight_absent_failure:
  assumes absent: "map_of (insightStore w) ind = None"
      and fails: "trim ind = [] \<or> isl (parsedInsights parse (gen (calls w) (InsightsPrompt ind)))"
  shows "ensureInsight writeObject parse gen ind w =
           Inr (w\<lparr>insightStore := insightStore w @ [(ind, placeholder ind (clock w))],
                  calls := (if trim ind = [] then calls w else calls w + 1),
                  trace := trace w @ (if trim ind = [] then [CreateInsight ind]
                                      else [CreateInsight ind, Generate (InsightsPrompt ind)])\<rparr>)"
proof (cases "trim ind = []")
  case True
  from generateAIInsights_blank[OF True]
  obtain m where "generateAIInsights parse gen (Some ind)
         (w\<lparr>insightStore := insightStore w @ [(ind, placeholder ind (clock w))],
            trace := trace w @ [CreateInsight ind]\<rparr>)
       = (Inl (Error m), w\<lparr>insightStore := insightStore w @ [(ind, placeholder ind (clock w))],
            trace := trace w @ [CreateInsight ind]\<rparr>)" by blast
  then show ?thesis
    using absent True by (simp add: ensureInsight_def createInsight_def placeholder_def)
next
  case False
  with fails have "isl (parsedInsights parse (gen (calls w) (InsightsPrompt ind)))" by simp
  from insightsCatch_fails[OF this] obtain m where
    m: "insightsCatch (parsedInsights parse (gen (calls w) (InsightsPrompt ind))) = Inl (Error m)"
    by blast
  show ?thesis
    using absent False m
    by (simp add: ensureInsight_def createInsight_def placeholder_def generateAIInsights_result)
qed

lemma upsertUser_result:
  "userIndustry (fst (upsertUser cid d sk w)) = Some (dataIndustry d)
   \<and> insightStore (snd (upsertUser cid d sk w)) = insightStore w
   \<and> calls (snd (upsertUser cid d sk w)) = calls w
   \<and> trace (snd (upsertUser cid d sk w)) = trace w @ [UpsertUser cid]"
  by (simp add: upsertUser_def Let_def split: option.splits)

lemma map_of_snoc: "map_of xs k = None \<Longrightarrow> map_of (xs @ [(k, v)]) k = Some v"
  by (simp add: map_add_def)

text \<open>
  C8. When the profile's industry has no insight record, updateUser first creates the
  placeholder (growth 0, demand MEDIUM, outlook NEUTRAL, empty lists, due 7 days from
  now) and only then tries the generation, with one provider call (none when the
  industry is blank); when that generation fails, the failure is dropped, the
  placeholder stays in the store, the user is stored after it and updateUser returns the
  user. An explicit refresh of a stale record whose generation fails makes its one
  provider call, returns the error of the generation, and writes nothing.
\<close>

theorem placeholder_kept_refresh_fails:
  "(map_of (insightStore w) (dataIndustry d) = None
      \<and> (trim (dataIndustry d) = []
          \<or> isl (parsedInsights parse (gen (calls w) (InsightsPrompt (dataIndustry d))))) \<longrightarrow>
      (\<exists>u'. fst (updateUser writeObject parse gen (Some cid) d w) = Inr u'
             \<and> userIndustry u' = Some (dataIndustry d))
      \<and> insightStore (snd (updateUser writeObject parse gen (Some cid) d w))
          = insightStore w @ [(dataIndustry d, placeholder (dataIndustry d) (clock w))]
      \<and> map_of (insightStore (snd (updateUser writeObject parse gen (Some cid) d w))) (dataIndustry d)
          = Some (placeholder (dataIndustry d) (clock w))
      \<and> trace (snd (updateUser writeObject parse gen (Some cid) d w))
          = trace w @ (if trim (dataIndustry d) = []
                       then [CreateInsight (dataIndustry d), UpsertUser cid]
                       else [CreateInsight (dataIndustry d),
                             Generate (InsightsPrompt (dataIndustry d)), UpsertUser cid])
      \<and> calls (snd (updateUser writeObject parse gen (Some cid) d w))
          = (if trim (dataIndustry d) = [] then calls w else calls w + 1))
   \<and> (growthRate (placeholder ind now) = JNum 0
      \<and> demandLevel (placeholder ind now) = JStr ''MEDIUM''
      \<and> marketOutlook (placeholder ind now) = JStr ''NEUTRAL''
      \<and> salaryRanges (placeholder ind now) = JArr []
      \<and> topSkills (placeholder ind now) = JArr []
      \<and> keyTrends (placeholder ind now) = JArr []
      \<and> recommendedSkills (placeholder ind now) = JArr []
      \<and> nextUpdate (placeholder ind now) = now + 604800000)
   \<and> (map_of (userStore w) cid = Some u \<and> userIndustry u = Some ind \<and> trim ind \<noteq> []
      \<and> map_of (insightStore w) ind = Some r \<and> clock w > nextUpdate r
      \<and> isl (parsedInsights parse (gen (calls w) (InsightsPrompt ind))) \<longrightarrow>
      (\<exists>m. fst (refreshIndustryInsights parse gen (Some cid) w) = Inl (Error m))
      \<and> fst (refreshIndustryInsights parse gen (Some cid) w)
          = Inl (projl (insightsCatch (parsedInsights parse (gen (calls w) (InsightsPrompt ind)))))
      \<and> insightStore (snd (refreshIndustryInsights parse gen (Some cid) w)) = insightStore w
      \<and> trace (snd (refreshIndustryInsights parse gen (Some cid) w))
          = trace w @ [Generate (InsightsPrompt ind)]
      \<and> calls (snd (refreshIndustryInsights parse gen (Some cid) w)) = calls w + 1)"
proof (intro conjI impI)
  assume a: "map_of (insightStore w) (dataIndustry d) = None
      \<and> (trim (dataIndustry d) = []
          \<or> isl (parsedInsights parse (gen (calls w) (InsightsPrompt (dataIndustry d)))))"
  define w1 where "w1 =
     w\<lparr>insightStore := insightStore w @ [(dataIndustry d, placeholder (dataIndustry d) (clock w))],
       calls := (if trim (dataIndustry d) = [] then calls w else calls w + 1),
       trace := trace w @ (if trim (dataIndustry d) = [] then [CreateInsight (dataIndustry d)]
                           else [CreateInsight (dataIndustry d),
                                 Generate (InsightsPrompt (dataIndustry d))])\<rparr>"
  have e: "ensureInsight writeObject parse gen (dataIndustry d) w = Inr w1"
    unfolding w1_def
    by (rule ensureInsight_absent_failure[where w = w and ind = "dataIndustry d"
                and parse = parse and gen = gen, OF conjunct1[OF a] conjunct2[OF a]])
  have w1: "insightStore w1
              = insightStore w @ [(dataIndustry d, placeholder (dataIndustry d) (clock w))]"
    "calls w1 = (if trim (dataIndustry d) = [] then calls w else calls w + 1)"
    "trace w1 = trace w @ (if trim (dataIndustry d) = [] then [CreateInsight (dataIndustry d)]
                           else [CreateInsight (dataIndustry d),
                                 Generate (InsightsPrompt (dataIndustry d))])"
    by (simp_all add: w1_def)
  let ?up = "upsertUser cid d (normalizeSkills (dataSkills d)) w1"
  note up = upsertUser_result[of cid d "normalizeSkills (dataSkills d)" w1]
  have r: "updateUser writeObject parse gen (Some cid) d w = (Inr (fst ?up), snd ?up)"
    by (simp add: updateUser_def e Let_def split: prod.splits)
  show "\<exists>u'. fst (updateUser writeObject parse gen (Some cid) d w) = Inr u'
             \<and> userIndustry u' = Some (dataIndustry d)"
    using up by (simp add: r)
  show s: "insightStore (snd (updateUser writeObject parse gen (Some cid) d w))
          = insightStore w @ [(dataIndustry d, placeholder (dataIndustry d) (clock w))]"
    using up by (simp add: r w1(1))
  show "map_of (insightStore (snd (updateUser writeObject parse gen (Some cid) d w))) (dataIndustry d)
          = Some (placeholder (dataIndustry d) (clock w))"
    unfolding s using a by (intro map_of_snoc) simp
  show "trace (snd (updateUser writeObject parse gen (Some cid) d w))
          = trace w @ (if trim (dataIndustry d) = []
                       then [CreateInsight (dataIndustry d), UpsertUser cid]
                       else [CreateInsight (dataIndustry d),
                             Generate (InsightsPrompt (dataIndustry d)), UpsertUser cid])"
    using up by (simp add: r w1(3))
  show "calls (snd (updateUser writeObject parse gen (Some cid) d w))
          = (if trim (dataIndustry d) = [] then calls w else calls w + 1)"
    using up by (simp add: r w1(2))
next
  assume a: "map_of (userStore w) cid = Some u \<and> userIndustry u = Some ind \<and> trim ind \<noteq> []
      \<and> map_of (insightStore w) ind = Some r \<and> clock w > nextUpdate r
      \<and> isl (parsedInsights parse (gen (calls w) (InsightsPrompt ind)))"
  then obtain m where
    m: "insightsCatch (parsedInsights parse (gen (calls w) (InsightsPrompt ind))) = Inl (Error m)"
    using insightsCatch_fails by blast
  have r: "refreshIndustryInsights parse gen (Some cid) w =
           (Inl (Error m), w\<lparr>calls := calls w + 1, trace := trace w @ [Generate (InsightsPrompt ind)]\<rparr>)"
    using a m
    by (simp add: refreshIndustryInsights_def getAuthenticatedUser_def regenerate_def
                  generateAIInsights_result)
  show "\<exists>m. fst (refreshIndustryInsights parse gen (Some cid) w) = Inl (Error m)"
    by (simp add: r)
  show "fst (refreshIndustryInsights parse gen (Some cid) w)
          = Inl (projl (insightsCatch (parsedInsights parse (gen (calls w) (InsightsPrompt ind)))))"
    by (simp add: r m)
  show "insightStore (snd (refreshIndustryInsights parse gen (Some cid) w)) = insightStore w"
    by (simp add: r)
  show "trace (snd (refreshIndustryInsights parse gen (Some cid) w))
          = trace w @ [Generate (InsightsPrompt ind)]"
    by (simp add: r)
  show "calls (snd (refreshIndustryInsights parse gen (Some cid) w)) = calls w + 1"
    by (simp add: r)
qed (simp_all add: placeholder_def)

theorem placeholder_kept_refresh_fails_witness:
  "(\<exists>u'. fst (updateUser (\<lambda>v r. Inr r) okParser downProvider (Some ''clerk1'') techProfile emptyWorld) = Inr u')
   \<and> insightStore (snd (updateUser (\<lambda>v r. Inr r) okParser downProvider (Some ''clerk1'') techProfile emptyWorld))
       = [(''Tech'', placeholder ''Tech'' 0)]
   \<and> trace (snd (updateUser (\<lambda>v r. Inr r) okParser downProvider (Some ''clerk1'') techProfile emptyWorld))
       = [CreateInsight ''Tech'', Generate (InsightsPrompt ''Tech''), UpsertUser ''clerk1'']
   \<and> trace (snd (updateUser (\<lambda>v r. Inr r) okParser okProvider (Some ''clerk1'')
                    (techProfile\<lparr>dataIndustry := '' ''\<rparr>) emptyWorld))
       = [CreateInsight '' '', UpsertUser ''clerk1'']
   \<and> fst (refreshIndustryInsights okParser downProvider (Some ''clerk1'')
            (techWorld 691200000 (techRecord 0 604800000)))
       = Inl (Error ''Failed to generate industry insights: 503 Service Unavailable'')
   \<and> trace (snd (refreshIndustryInsights okParser downProvider (Some ''clerk1'')
            (techWorld 691200000 (techRecord 0 604800000))))
       = [Generate (InsightsPrompt ''Tech'')]"
proof -
  let ?w = "techWorld 691200000 (techRecord 0 604800000)"
  let ?blank = "techProfile\<lparr>dataIndustry := '' ''\<rparr>"
  have f: "\<And>k p. isl (parsedInsights okParser (downProvider k p))"
    by (simp add: parsedInsights_def downProvider_def)
  have i: "dataIndustry techProfile = ''Tech''" "trim ''Tech'' \<noteq> []"
          "dataIndustry ?blank = '' ''" "trim '' '' = []"
    by (simp_all add: techProfile_def trim_def isSpace_def)
  have h1: "map_of (insightStore emptyWorld) (dataIndustry techProfile) = None
      \<and> (trim (dataIndustry techProfile) = []
          \<or> isl (parsedInsights okParser (downProvider (calls emptyWorld) (InsightsPrompt (dataIndustry techProfile)))))"
    using f by (simp add: emptyWorld_def)
  have h1': "map_of (insightStore emptyWorld) (dataIndustry ?blank) = None
      \<and> (trim (dataIndustry ?blank) = []
          \<or> isl (parsedInsights okParser (okProvider (calls emptyWorld) (InsightsPrompt (dataIndustry ?blank)))))"
    using i by (simp add: emptyWorld_def)
  have h2: "map_of (userStore ?w) ''clerk1'' = Some techUser \<and> userIndustry techUser = Some ''Tech''
      \<and> trim ''Tech'' \<noteq> [] \<and> map_of (insightStore ?w) ''Tech'' = Some (techRecord 0 604800000)
      \<and> clock ?w > nextUpdate (techRecord 0 604800000)
      \<and> isl (parsedInsights okParser (downProvider (calls ?w) (InsightsPrompt ''Tech'')))"
    using f by (simp add: techWorld_def techUser_def techRecord_def emptyWorld_def trim_def isSpace_def)
  note t1 = placeholder_kept_refresh_fails[where w = emptyWorld and d = techProfile
              and parse = okParser and gen = downProvider and writeObject = "\<lambda>v r. Inr r"
              and cid = "''clerk1''"]
  note t1' = placeholder_kept_refresh_fails[where w = emptyWorld and d = "?blank"
              and parse = okParser and gen = okProvider and writeObject = "\<lambda>v r. Inr r"
              and cid = "''clerk1''"]
  note t2 = placeholder_kept_refresh_fails[where w = "?w" and parse = okParser
              and gen = downProvider and cid = "''clerk1''" and u = techUser and ind = "''Tech''"
              and r = "techRecord 0 604800000"]
  from t1 h1 have 1: "\<exists>u'. fst (updateUser (\<lambda>v r. Inr r) okParser downProvider (Some ''clerk1'') techProfile emptyWorld) = Inr u'"
    by blast
  from t1 h1 have 2: "insightStore (snd (updateUser (\<lambda>v r. Inr r) okParser downProvider (Some ''clerk1'') techProfile emptyWorld))
       = insightStore emptyWorld @ [(dataIndustry techProfile, placeholder (dataIndustry techProfile) (clock emptyWorld))]"
    by blast
  from t1 h1 have 5: "trace (snd (updateUser (\<lambda>v r. Inr r) okParser downProvider (Some ''clerk1'') techProfile emptyWorld))
          = trace emptyWorld @ (if trim (dataIndustry techProfile) = []
                       then [CreateInsight (dataIndustry techProfile), UpsertUser ''clerk1'']
                       else [CreateInsight (dataIndustry techProfile),
                             Generate (InsightsPrompt (dataIndustry techProfile)), UpsertUser ''clerk1''])"
    by blast
  from t1' h1' have 6: "trace (snd (updateUser (\<lambda>v r. Inr r) okParser okProvider (Some ''clerk1'') ?blank emptyWorld))
          = trace emptyWorld @ (if trim (dataIndustry ?blank) = []
                       then [CreateInsight (dataIndustry ?blank), UpsertUser ''clerk1'']
                       else [CreateInsight (dataIndustry ?blank),
                             Generate (InsightsPrompt (dataIndustry ?blank)), UpsertUser ''clerk1''])"
    by blast
  from t2 h2 have 3: "fst (refreshIndustryInsights okParser downProvider (Some ''clerk1'') ?w)
          = Inl (projl (insightsCatch (parsedInsights okParser (downProvider (calls ?w) (InsightsPrompt ''Tech'')))))"
    by blast
  from t2 h2 have 7: "trace (snd (refreshIndustryInsights okParser downProvider (Some ''clerk1'') ?w))
          = trace ?w @ [Generate (InsightsPrompt ''Tech'')]"
    by blast
  have 4: "insightsCatch (parsedInsights okParser (downProvider k p))
           = Inl (Error ''Failed to generate industry insights: 503 Service Unavailable'')" for k p
    by (simp add: insightsCatch_def parsedInsights_def downProvider_def isSyntaxError_def)
  have z: "trace emptyWorld = []" "trace ?w = []" "insightStore emptyWorld = []"
          "clock emptyWorld = 0"
    by (simp_all add: emptyWorld_def techWorld_def)
  show ?thesis
    using 1 2 3 5 6 7 by (simp add: 4 i z)
qed

section \<open>Properties of the weekly refresh job\<close>











section \<open>Properties of the quota-limited actions\<close>

lemma generateCoverLetter_run:
  assumes d: "jobTitle d \<noteq> []" "companyName d \<noteq> []" "jobDescription d \<noteq> []"
      and u: "map_of (userStore w) cid = Some u"
      and q: "todayCount midnight u w < DAILY_LIMIT"
      and fresh: "\<forall>c \<in> set (coverLetterStore w). letterId c < nextId w"
  shows "generateCoverLetter midnight gen (Some cid) (Some d) w =
     (case letterText (gen (calls w) (CoverLetterPrompt d u)) of
        Inr generated \<Rightarrow>
          (Inr ((pendingLetter d u w)\<lparr>content := generated, status := ''completed''\<rparr>),
           w\<lparr>coverLetterStore := coverLetterStore w
                 @ [(pendingLetter d u w)\<lparr>content := generated, status := ''completed''\<rparr>],
             nextId := nextId w + 1, calls := calls w + 1,
             trace := trace w @ [CreateCoverLetter (nextId w), Generate (CoverLetterPrompt d u),
                                 UpdateCoverLetter (nextId w)]\<rparr>)
      | Inl error \<Rightarrow>
          (Inl (Error (''Failed to generate cover letter: '' @ message error)),
           w\<lparr>coverLetterStore := coverLetterStore w @ [(pendingLetter d u w)\<lparr>status := ''failed''\<rparr>],
             nextId := nextId w + 1, calls := calls w + 1,
             trace := trace w @ [CreateCoverLetter (nextId w), Generate (CoverLetterPrompt d u),
                                 UpdateCoverLetter (nextId w)]\<rparr>))"
proof -
  have f: "\<forall>c \<in> set (coverLetterStore w). letterId c \<noteq> letterId (pendingLetter d u w)"
    using fresh by (auto simp: pendingLetter_def)
  have i: "letterId (pendingLetter d u w) = nextId w" by (simp add: pendingLetter_def)
  have m: "map (\<lambda>c. if letterId c = letterId (pendingLetter d u w) then g c else c)
             (coverLetterStore w) = coverLetterStore w" for g
    using f by (intro map_idI) simp
  show ?thesis
    using d u q
    by (cases "letterText (gen (calls w) (CoverLetterPrompt d u))")
       (simp_all add: generateCoverLetter_def getAuthenticatedUser_def createCoverLetter_def
                      generateContent_def updateCoverLetter_def Let_def
                      pendingLetter_def[symmetric] m, simp_all add: i)
qed

text \<open>
  C10. A call of generateCoverLetter that passes the input check, finds its user and is
  below the daily limit first stores a placeholder with empty content and status
  pending, then calls the provider, then updates that record: to completed with the
  generated text when the generation succeeds, to failed when it fails, in which case
  the call fails and the record stays. Either way the record is one more in the count
  of the daily limit, which looks at the user and the creation time only. This holds in
  every zone, whatever its clock changes, as long as the day of the call has started
  by the time of the call.
\<close>

theorem cover_letter_placeholder:
  assumes valid: "jobTitle d \<noteq> [] \<and> companyName d \<noteq> [] \<and> jobDescription d \<noteq> []"
      and found: "map_of (userStore w) cid = Some u"
      and quota: "todayCount midnight u w < DAILY_LIMIT"
      and fresh: "\<forall>c \<in> set (coverLetterStore w). letterId c < nextId w"
      and started: "midnight (clock w) \<le> clock w"
  shows "content (pendingLetter d u w) = [] \<and> status (pendingLetter d u w) = ''pending''
     \<and> coverLetterStore (snd (createCoverLetter d u w)) = coverLetterStore w @ [pendingLetter d u w]
     \<and> trace (snd (generateCoverLetter midnight gen (Some cid) (Some d) w))
         = trace w @ [CreateCoverLetter (nextId w), Generate (CoverLetterPrompt d u),
                      UpdateCoverLetter (nextId w)]
     \<and> (\<forall>generated. letterText (gen (calls w) (CoverLetterPrompt d u)) = Inr generated \<longrightarrow>
           fst (generateCoverLetter midnight gen (Some cid) (Some d) w)
             = Inr ((pendingLetter d u w)\<lparr>content := generated, status := ''completed''\<rparr>)
           \<and> coverLetterStore (snd (generateCoverLetter midnight gen (Some cid) (Some d) w))
             = coverLetterStore w
                 @ [(pendingLetter d u w)\<lparr>content := generated, status := ''completed''\<rparr>])
     \<and> (\<forall>error. letterText (gen (calls w) (CoverLetterPrompt d u)) = Inl error \<longrightarrow>
           fst (generateCoverLetter midnight gen (Some cid) (Some d) w)
             = Inl (Error (''Failed to generate cover letter: '' @ message error))
           \<and> coverLetterStore (snd (generateCoverLetter midnight gen (Some cid) (Some d) w))
             = coverLetterStore w @ [(pendingLetter d u w)\<lparr>status := ''failed''\<rparr>])
     \<and> todayCount midnight u (snd (generateCoverLetter midnight gen (Some cid) (Some d) w))
         = todayCount midnight u w + 1"
proof -
  from valid have v: "jobTitle d \<noteq> []" "companyName d \<noteq> []" "jobDescription d \<noteq> []"
    by simp_all
  note run = generateCoverLetter_run[where gen = gen, OF v found quota fresh]
  have created: "createdAt (pendingLetter d u w) \<ge> midnight (clock w)"
    "letterUser (pendingLetter d u w) = userId u"
    using started by (simp_all add: pendingLetter_def)
  show ?thesis
  proof (cases "letterText (gen (calls w) (CoverLetterPrompt d u))")
    case (Inl e)
    show ?thesis
      using created
      by (simp add: run Inl todayCount_def createCoverLetter_def Let_def
                    pendingLetter_def[symmetric])
         (simp add: pendingLetter_def)
  next
    case (Inr t)
    show ?thesis
      using created
      by (simp add: run Inr todayCount_def createCoverLetter_def Let_def
                    pendingLetter_def[symmetric])
         (simp add: pendingLetter_def)
  qed
qed

theorem cover_letter_placeholder_witness:
  "fst (generateCoverLetter utcMidnight downProvider (Some ''clerk1'') (Some techJob) (userWorld 1000))
     = Inl (Error ''Failed to generate cover letter: 503 Service Unavailable'')
   \<and> map status (coverLetterStore
        (snd (generateCoverLetter utcMidnight downProvider (Some ''clerk1'') (Some techJob) (userWorld 1000))))
     = [''failed'']
   \<and> todayCount utcMidnight techUser
        (snd (generateCoverLetter utcMidnight downProvider (Some ''clerk1'') (Some techJob) (userWorld 1000)))
     = 1
   \<and> map (\<lambda>c. (content c, status c)) (coverLetterStore
        (snd (generateCoverLetter utcMidnight okProvider (Some ''clerk1'') (Some techJob) (userWorld 1000))))
     = [(''ok'', ''completed'')]"
proof -
  have valid: "jobTitle techJob \<noteq> [] \<and> companyName techJob \<noteq> [] \<and> jobDescription techJob \<noteq> []"
    by (simp add: techJob_def)
  have found: "map_of (userStore (userWorld 1000)) ''clerk1'' = Some techUser"
    by (simp add: userWorld_def emptyWorld_def)
  have quota: "todayCount utcMidnight techUser (userWorld 1000) < DAILY_LIMIT"
    by (simp add: todayCount_def userWorld_def emptyWorld_def DAILY_LIMIT_def)
  have fresh: "\<forall>c \<in> set (coverLetterStore (userWorld 1000)). letterId c < nextId (userWorld 1000)"
    by (simp add: userWorld_def emptyWorld_def)
  have e: "letterText (downProvider k p) = Inl (Error ''503 Service Unavailable'')" for k p
    by (simp add: letterText_def downProvider_def)
  have g: "letterText (okProvider k p) = Inr ''ok''" for k p
    by (simp add: letterText_def okProvider_def trim_def isSpace_def)
  have empty: "coverLetterStore (userWorld 1000) = []" "todayCount utcMidnight techUser (userWorld 1000) = 0"
    by (simp_all add: userWorld_def emptyWorld_def todayCount_def)
  have started: "utcMidnight (clock (userWorld 1000)) \<le> clock (userWorld 1000)"
    by (simp add: utcMidnight_def dayMs_def userWorld_def emptyWorld_def)
  from cover_letter_placeholder[where gen = downProvider, OF valid found quota fresh started]
  have 1: "fst (generateCoverLetter utcMidnight downProvider (Some ''clerk1'') (Some techJob) (userWorld 1000))
     = Inl (Error ''Failed to generate cover letter: 503 Service Unavailable'')
   \<and> map status (coverLetterStore
        (snd (generateCoverLetter utcMidnight downProvider (Some ''clerk1'') (Some techJob) (userWorld 1000))))
     = [''failed'']
   \<and> todayCount utcMidnight techUser
        (snd (generateCoverLetter utcMidnight downProvider (Some ''clerk1'') (Some techJob) (userWorld 1000)))
     = 1"
    by (simp add: e empty)
  from cover_letter_placeholder[where gen = okProvider, OF valid found quota fresh started]
  have 2: "map (\<lambda>c. (content c, status c)) (coverLetterStore
        (snd (generateCoverLetter utcMidnight okProvider (Some ''clerk1'') (Some techJob) (userWorld 1000))))
     = [(''ok'', ''completed'')]"
    by (simp add: g empty)
  show ?thesis using 1 2 by blast
qed

lemma generateCoverLetter_at_limit:
  assumes "jobTitle d \<noteq> [] \<and> companyName d \<noteq> [] \<and> jobDescription d \<noteq> []"
      and "map_of (userStore w) cid = Some u"
      and "todayCount midnight u w \<ge> DAILY_LIMIT"
  shows "generateCoverLetter midnight gen (Some cid) (Some d) w =
           (Inl (Error ''Daily limit of 10 cover letters reached. Try again tomorrow.''), w)"
  using assms
  by (simp add: generateCoverLetter_def getAuthenticatedUser_def DAILY_LIMIT_def digit_def)

lemma generateCoverLetter_below_limit:
  assumes "jobTitle d \<noteq> [] \<and> companyName d \<noteq> [] \<and> jobDescription d \<noteq> []"
      and "map_of (userStore w) cid = Some u"
      and "todayCount midnight u w < DAILY_LIMIT"
  shows "calls (snd (generateCoverLetter midnight gen (Some cid) (Some d) w)) = calls w + 1"
  using assms
  by (cases "letterText (gen (calls w) (CoverLetterPrompt d u))")
     (simp_all add: generateCoverLetter_def getAuthenticatedUser_def createCoverLetter_def
                    generateContent_def updateCoverLetter_def Let_def)

lemma generateQuiz_at_limit:
  assumes "map_of (userStore w) cid = Some u" and "todayQuizCount midnight u w \<ge> DAILY_QUIZ_LIMIT"
  shows "generateQuiz midnight parse gen (Some cid) w =
           (Inl (Error ''Daily quiz limit reached (5 per day). Try again tomorrow.''), w)"
  using assms
  by (simp add: generateQuiz_def getAuthenticatedUser_def DAILY_QUIZ_LIMIT_def digit_def)

lemma generateQuiz_below_limit:
  assumes "map_of (userStore w) cid = Some u" and "todayQuizCount midnight u w < DAILY_QUIZ_LIMIT"
      and "userIndustry u = Some ind" and "ind \<noteq> []"
  shows "calls (snd (generateQuiz midnight parse gen (Some cid) w)) = calls w + 1"
  using assms
  by (simp add: generateQuiz_def getAuthenticatedUser_def generateContent_def)

lemma geminiAttempt_calls: "calls (snd (geminiAttempt gen p w)) = calls w + 1"
  by (simp add: geminiAttempt_def generateContent_def)

lemma retryLoop_calls:
  "a \<le> n \<Longrightarrow> calls w < calls (snd (retryLoop (geminiAttempt gen p) base final n a lastError w))"
proof (induction "n - a" arbitrary: a lastError w)
  case 0
  then have an: "a = n" by simp
  obtain r w1 where b: "geminiAttempt gen p w = (r, w1)" by (cases "geminiAttempt gen p w")
  then have c: "calls w1 = calls w + 1" using geminiAttempt_calls[of gen p w] by simp
  show ?case
    apply (subst retryLoop.simps)
    apply (cases r)
     apply (subst retryLoop.simps)
     apply (simp_all add: an b c)
    done
next
  case (Suc d)
  then have lt: "a < n" and d: "d = n - Suc a" and le: "Suc a \<le> n" by simp_all
  obtain r w1 where b: "geminiAttempt gen p w = (r, w1)" by (cases "geminiAttempt gen p w")
  then have c: "calls w1 = calls w + 1" using geminiAttempt_calls[of gen p w] by simp
  show ?case
  proof (cases r)
    case (Inr v)
    then show ?thesis by (subst retryLoop.simps) (simp add: b c lt less_imp_le[OF lt])
  next
    case (Inl e)
    have "calls (sleep (base * (int a + 1)) w1)
          < calls (snd (retryLoop (geminiAttempt gen p) base final n (Suc a) (Some e)
                          (sleep (base * (int a + 1)) w1)))"
      by (rule Suc.hyps(1)[OF d le])
    then show ?thesis
      by (subst retryLoop.simps) (simp add: b c lt less_imp_le[OF lt] Inl sleep_def)
  qed
qed

lemma improveWithAI_below_limit:
  assumes "current \<noteq> []" "trim current \<noteq> []" "length current \<le> 5000"
      and "typeArg \<noteq> []" "toLowerCase typeArg \<in> set validTypes"
      and "map_of (userStore w) cid = Some u" "userIndustry u = Some ind" "ind \<noteq> []"
      and "length (recentImprovements u w) < HOURLY_AI_LIMIT"
  shows "calls w < calls (snd (improveWithAI gen (Some cid) current typeArg w))"
proof -
  let ?p = "ImprovePrompt (toLowerCase typeArg) current ind"
  have "calls w < calls (snd (callGeminiWithRetry gen ?p 2 w))"
    unfolding callGeminiWithRetry_def by (rule retryLoop_calls) simp
  then show ?thesis
    using assms
    by (cases "callGeminiWithRetry gen ?p 2 w"; cases "fst (callGeminiWithRetry gen ?p 2 w)")
       (auto simp: improveWithAI_def getAuthenticatedUser_def)
qed

text \<open>
  C5 (amended). Cover-letter generation (10 per day) and quiz generation (5 per day)
  count the user's records created at or after the start of the current day in the
  server's local time, in every zone, and fail with a limit error that carries the
  maximum, with no provider call and nothing written, when the count has reached it;
  below the maximum the cover letter goes on to the provider, and the quiz does when the
  user's industry is set.
\<close>

theorem quota_checks:
  "(jobTitle d \<noteq> [] \<and> companyName d \<noteq> [] \<and> jobDescription d \<noteq> []
      \<and> map_of (userStore w) cid = Some u
      \<and> DAILY_LIMIT \<le> todayCount midnight u w \<longrightarrow>
      generateCoverLetter midnight gen (Some cid) (Some d) w =
        (Inl (Error ''Daily limit of 10 cover letters reached. Try again tomorrow.''), w))
   \<and> (jobTitle d \<noteq> [] \<and> companyName d \<noteq> [] \<and> jobDescription d \<noteq> []
      \<and> map_of (userStore w) cid = Some u
      \<and> todayCount midnight u w < DAILY_LIMIT \<longrightarrow>
      calls (snd (generateCoverLetter midnight gen (Some cid) (Some d) w)) = calls w + 1)
   \<and> (map_of (userStore w) cid = Some u
      \<and> DAILY_QUIZ_LIMIT \<le> todayQuizCount midnight u w \<longrightarrow>
      generateQuiz midnight parse gen (Some cid) w =
        (Inl (Error ''Daily quiz limit reached (5 per day). Try again tomorrow.''), w))
   \<and> (map_of (userStore w) cid = Some u \<and> todayQuizCount midnight u w < DAILY_QUIZ_LIMIT
      \<and> userIndustry u = Some ind \<and> ind \<noteq> [] \<longrightarrow>
      calls (snd (generateQuiz midnight parse gen (Some cid) w)) = calls w + 1)
   \<and> todayCount midnight u w
       = length (filter (\<lambda>c. letterUser c = userId u \<and> midnight (clock w) \<le> createdAt c)
                   (coverLetterStore w))
   \<and> todayQuizCount midnight u w
       = length (filter (\<lambda>a. assessmentUser a = userId u
                            \<and> midnight (clock w) \<le> assessmentCreatedAt a)
                   (assessmentStore w))
   \<and> DAILY_LIMIT = 10 \<and> DAILY_QUIZ_LIMIT = 5"
proof (intro conjI impI)
  assume "jobTitle d \<noteq> [] \<and> companyName d \<noteq> [] \<and> jobDescription d \<noteq> []
      \<and> map_of (userStore w) cid = Some u \<and> DAILY_LIMIT \<le> todayCount midnight u w"
  then show "generateCoverLetter midnight gen (Some cid) (Some d) w =
        (Inl (Error ''Daily limit of 10 cover letters reached. Try again tomorrow.''), w)"
    using generateCoverLetter_at_limit[where d = d and w = w and cid = cid and u = u
            and midnight = midnight]
    by simp
next
  assume "jobTitle d \<noteq> [] \<and> companyName d \<noteq> [] \<and> jobDescription d \<noteq> []
      \<and> map_of (userStore w) cid = Some u \<and> todayCount midnight u w < DAILY_LIMIT"
  then show "calls (snd (generateCoverLetter midnight gen (Some cid) (Some d) w)) = calls w + 1"
    using generateCoverLetter_below_limit[where d = d and w = w and cid = cid and u = u
            and midnight = midnight]
    by simp
next
  assume "map_of (userStore w) cid = Some u \<and> DAILY_QUIZ_LIMIT \<le> todayQuizCount midnight u w"
  then show "generateQuiz midnight parse gen (Some cid) w =
        (Inl (Error ''Daily quiz limit reached (5 per day). Try again tomorrow.''), w)"
    using generateQuiz_at_limit[where w = w and cid = cid and u = u and midnight = midnight] by simp
next
  assume "map_of (userStore w) cid = Some u \<and> todayQuizCount midnight u w < DAILY_QUIZ_LIMIT
      \<and> userIndustry u = Some ind \<and> ind \<noteq> []"
  then show "calls (snd (generateQuiz midnight parse gen (Some cid) w)) = calls w + 1"
    using generateQuiz_below_limit[where w = w and cid = cid and u = u and midnight = midnight
            and ind = ind]
    by simp
qed (simp_all add: DAILY_LIMIT_def DAILY_QUIZ_LIMIT_def todayCount_def todayQuizCount_def)

lemma lettersAt_count:
  "length (filter (\<lambda>c. letterUser c = ''u1'' \<and> lo \<le> createdAt c) (lettersAt t))
     = (if lo \<le> t then 10 else 0)"
  by (simp add: lettersAt_def)

theorem quota_checks_witness:
  "generateCoverLetter utcMidnight okProvider (Some ''clerk1'') (Some techJob) busyWorld
     = (Inl (Error ''Daily limit of 10 cover letters reached. Try again tomorrow.''), busyWorld)
   \<and> calls (snd (generateCoverLetter utcMidnight okProvider (Some ''clerk1'') (Some techJob) (userWorld 1000))) = 1
   \<and> generateQuiz utcMidnight okParser okProvider (Some ''clerk1'') busyWorld
     = (Inl (Error ''Daily quiz limit reached (5 per day). Try again tomorrow.''), busyWorld)
   \<and> calls (snd (generateQuiz utcMidnight okParser okProvider (Some ''clerk1'') (userWorld 1000))) = 1"
proof -
  have job: "jobTitle techJob \<noteq> [] \<and> companyName techJob \<noteq> [] \<and> jobDescription techJob \<noteq> []"
    by (simp add: techJob_def)
  have u1: "map_of (userStore busyWorld) ''clerk1'' = Some techUser"
    and u2: "map_of (userStore (userWorld 1000)) ''clerk1'' = Some techUser"
    by (simp_all add: busyWorld_def userWorld_def emptyWorld_def)
  have ind: "userIndustry techUser = Some ''Tech''" "userId techUser = ''u1''"
    by (simp_all add: techUser_def)
  have s: "utcMidnight 43200000 = 0" by (simp add: utcMidnight_def dayMs_def)
  have c1: "DAILY_LIMIT \<le> todayCount utcMidnight techUser busyWorld"
    by (simp add: todayCount_def busyWorld_def userWorld_def emptyWorld_def ind s lettersAt_count
                  DAILY_LIMIT_def)
  have c2: "todayCount utcMidnight techUser (userWorld 1000) < DAILY_LIMIT"
    by (simp add: todayCount_def userWorld_def emptyWorld_def DAILY_LIMIT_def)
  have c3: "DAILY_QUIZ_LIMIT \<le> todayQuizCount utcMidnight techUser busyWorld"
    by (simp add: todayQuizCount_def busyWorld_def userWorld_def emptyWorld_def ind s
                  DAILY_QUIZ_LIMIT_def)
  have c4: "todayQuizCount utcMidnight techUser (userWorld 1000) < DAILY_QUIZ_LIMIT"
    by (simp add: todayQuizCount_def userWorld_def emptyWorld_def DAILY_QUIZ_LIMIT_def)
  have z: "calls (userWorld 1000) = 0" by (simp add: userWorld_def emptyWorld_def)
  note a = quota_checks[where w = busyWorld and cid = "''clerk1''" and u = techUser
             and midnight = utcMidnight
             and d = techJob and gen = okProvider and parse = okParser]
  note b = quota_checks[where w = "userWorld 1000" and cid = "''clerk1''" and u = techUser
             and midnight = utcMidnight and d = techJob and gen = okProvider and parse = okParser
             and ind = "''Tech''"]
  from a job u1 c1 have 1: "generateCoverLetter utcMidnight okProvider (Some ''clerk1'') (Some techJob) busyWorld
     = (Inl (Error ''Daily limit of 10 cover letters reached. Try again tomorrow.''), busyWorld)"
    by blast
  from b job u2 c2 have 2: "calls (snd (generateCoverLetter utcMidnight okProvider (Some ''clerk1'') (Some techJob) (userWorld 1000))) = calls (userWorld 1000) + 1"
    by blast
  from a u1 c3 have 3: "generateQuiz utcMidnight okParser okProvider (Some ''clerk1'') busyWorld
     = (Inl (Error ''Daily quiz limit reached (5 per day). Try again tomorrow.''), busyWorld)"
    by blast
  from b u2 c4 ind have 4: "calls (snd (generateQuiz utcMidnight okParser okProvider (Some ''clerk1'') (userWorld 1000))) = calls (userWorld 1000) + 1"
    by blast
  show ?thesis using 1 2 3 4 by (simp add: z)
qed

text \<open>
  C5 as stated fails for the daily limits: on a server in UTC, one hour after midnight,
  the ten cover letters the user created one hour before midnight are all within the
  trailing day, and yet the eleventh generation is not refused: it calls the provider
  and succeeds.
\<close>

theorem daily_limit_not_trailing:
  "trailingCount dayMs ''u1'' lateWorld = 10
   \<and> DAILY_LIMIT = 10
   \<and> \<not> isl (fst (generateCoverLetter utcMidnight okProvider (Some ''clerk1'') (Some techJob) lateWorld))
   \<and> calls (snd (generateCoverLetter utcMidnight okProvider (Some ''clerk1'') (Some techJob) lateWorld)) = 1"
proof -
  have job: "jobTitle techJob \<noteq> []" "companyName techJob \<noteq> []" "jobDescription techJob \<noteq> []"
    by (simp_all add: techJob_def)
  have u: "map_of (userStore lateWorld) ''clerk1'' = Some techUser"
    by (simp add: lateWorld_def userWorld_def emptyWorld_def)
  have s: "utcMidnight 90000000 = 86400000" by (simp add: utcMidnight_def dayMs_def)
  have c: "todayCount utcMidnight techUser lateWorld < DAILY_LIMIT"
    by (simp add: todayCount_def lateWorld_def userWorld_def emptyWorld_def techUser_def s
                  lettersAt_count DAILY_LIMIT_def)
  have f: "\<forall>c \<in> set (coverLetterStore lateWorld). letterId c < nextId lateWorld"
    by (simp add: lateWorld_def userWorld_def emptyWorld_def lettersAt_def)
  have g: "letterText (okProvider k p) = Inr ''ok''" for k p
    by (simp add: letterText_def okProvider_def trim_def isSpace_def)
  have t: "trailingCount dayMs ''u1'' lateWorld = 10"
    by (simp add: trailingCount_def lateWorld_def userWorld_def emptyWorld_def lettersAt_def
                  dayMs_def)
  have z: "calls lateWorld = 0" by (simp add: lateWorld_def userWorld_def emptyWorld_def)
  show ?thesis
    by (simp add: generateCoverLetter_run[where gen = okProvider, OF job u c f] g t z
                  DAILY_LIMIT_def)
qed

text \<open>
  The store has one resume per user, so the count improveWithAI compares with its
  maximum of 20 is at most 1.
\<close>

lemma recentImprovements_at_most_one:
  assumes "distinct (map fst (resumeStore w))"
  shows "length (recentImprovements u w) \<le> 1"
proof -
  have "distinct (map fst xs) \<Longrightarrow>
        length (filter (\<lambda>(owner, r). owner = a \<and> P r) xs) \<le> 1" for xs :: "(string \<times> resume) list" and a P
  proof (induction xs)
    case Nil
    then show ?case by simp
  next
    case (Cons x xs)
    obtain k r where x: "x = (k, r)" by (cases x)
    show ?case
    proof (cases "k = a")
      case True
      then have "a \<notin> fst ` set xs" using Cons.prems x by simp
      then have "filter (\<lambda>(owner, r). owner = a \<and> P r) xs = []"
        by (force simp: filter_empty_conv)
      then show ?thesis using x by simp
    next
      case False
      then show ?thesis using Cons x by simp
    qed
  qed
  from this[of "resumeStore w" "userId u" "\<lambda>r. updatedAt r \<ge> clock w - 60 * 60 * 1000", OF assms]
  show ?thesis unfolding recentImprovements_def .
qed

end
